theory Spec2Isabelle
  imports Complex_Main "HOL-Library.AList" "HOL-Library.Sublist"
    "HOL-Library.Char_ord" "HOL-Library.List_Lexorder" "HOL-Library.Multiset"
begin

section \<open>Numbers\<close>

text \<open>
  The program is TypeScript; its numbers are IEEE doubles.  Coordinates, tolerances,
  timestamps and confidences are modelled as \<^typ>\<open>real\<close>: rounding, overflow to
  infinity and NaN are outside the model, except where a parse can yield NaN, which is
  an explicit \<open>None\<close>.  Identifiers, step numbers and counters are \<^typ>\<open>int\<close>, dates
  are \<^typ>\<open>nat\<close> (milliseconds).
\<close>

section \<open>Attempt scoring\<close>

text \<open>
  \<^verbatim>\<open>validateClickTolerance\<close> of \<^verbatim>\<open>client/src/lib/utils.ts\<close>:
  \<^verbatim>\<open>return Math.abs(clickX - expectedX) <= tolerance &&
         Math.abs(clickY - expectedY) <= tolerance;\<close>
\<close>

definition validateClickTolerance :: "real \<Rightarrow> real \<Rightarrow> real \<Rightarrow> real \<Rightarrow> real \<Rightarrow> bool" where
  "validateClickTolerance clickX clickY expectedX expectedY tolerance =
     (\<bar>clickX - expectedX\<bar> \<le> tolerance \<and> \<bar>clickY - expectedY\<bar> \<le> tolerance)"

text \<open>The parameter default \<^verbatim>\<open>tolerance: number = 25\<close>.\<close>

definition validateClickTolerance_default :: "real \<Rightarrow> real \<Rightarrow> real \<Rightarrow> real \<Rightarrow> bool" where
  "validateClickTolerance_default clickX clickY expectedX expectedY =
     validateClickTolerance clickX clickY expectedX expectedY 25"

record HotspotData =
  h_id :: string
  h_x :: real
  h_y :: real
  h_label :: string

text \<open>
  The check inlined in the display component's \<^verbatim>\<open>handleHotspotClick\<close>, on the click
  already converted to original image coordinates:
  \<^verbatim>\<open>const tolerance = 25;
  const isCorrect = Math.abs(originalX - hotspot.x) <= tolerance &&
                   Math.abs(originalY - hotspot.y) <= tolerance;\<close>
\<close>

definition display_isCorrect :: "real \<Rightarrow> real \<Rightarrow> HotspotData \<Rightarrow> bool" where
  "display_isCorrect originalX originalY hotspot =
     (let tolerance = 25
      in \<bar>originalX - h_x hotspot\<bar> \<le> tolerance \<and> \<bar>originalY - h_y hotspot\<bar> \<le> tolerance)"

section \<open>Sessions and attempts in the in-memory store\<close>

record InsertTestSession =
  ins_testName :: string
  ins_userId :: "int option"
  ins_extractedFrames :: "string list"
  ins_hotspotData :: "HotspotData list list"
  ins_totalSteps :: int

record TestSession =
  s_id :: int
  testName :: string
  userId :: "int option"
  extractedFrames :: "string list"
  hotspotData :: "HotspotData list list"
  totalSteps :: int
  currentStep :: int
  isCompleted :: bool
  startTime :: nat
  completedTime :: "nat option"

record InsertTestAttempt =
  ins_sessionId :: int
  ins_stepNumber :: int
  ins_hotspotId :: string
  ins_clickX :: real
  ins_clickY :: real
  ins_expectedX :: real
  ins_expectedY :: real
  ins_isCorrect :: bool
  ins_timeSpent :: int

record TestAttempt =
  a_id :: int
  sessionId :: int
  stepNumber :: int
  hotspotId :: string
  clickX :: real
  clickY :: real
  expectedX :: real
  expectedY :: real
  isCorrect :: bool
  timeSpent :: int
  attemptTime :: nat

text \<open>
  \<^verbatim>\<open>MemStorage\<close>: the two JavaScript \<^verbatim>\<open>Map\<close>s are association lists in
  insertion order; \<^verbatim>\<open>Map.set\<close> replaces the value of a key that is present and
  appends a new key at the end, which is \<^const>\<open>AList.update\<close>; \<^verbatim>\<open>Map.get\<close> is
  \<^const>\<open>map_of\<close>.
\<close>

record MemStorage =
  testSessions :: "(int \<times> TestSession) list"
  testAttempts :: "(int \<times> TestAttempt) list"
  currentSessionId :: int
  currentAttemptId :: int

definition MemStorage_new :: MemStorage where
  "MemStorage_new =
     \<lparr>testSessions = [], testAttempts = [], currentSessionId = 1, currentAttemptId = 1\<rparr>"

text \<open>\<^verbatim>\<open>insertSession.userId || null\<close>: a missing or zero user id becomes null.\<close>

definition or_null :: "int option \<Rightarrow> int option" where
  "or_null u = (case u of None \<Rightarrow> None | Some n \<Rightarrow> if n = 0 then None else Some n)"

definition createTestSession :: "nat \<Rightarrow> InsertTestSession \<Rightarrow> MemStorage \<Rightarrow> TestSession \<times> MemStorage" where
  "createTestSession now insertSession st =
     (let ident = currentSessionId st;
          session = \<lparr>s_id = ident,
                     testName = ins_testName insertSession,
                     userId = or_null (ins_userId insertSession),
                     extractedFrames = ins_extractedFrames insertSession,
                     hotspotData = ins_hotspotData insertSession,
                     totalSteps = ins_totalSteps insertSession,
                     currentStep = 1,
                     isCompleted = False,
                     startTime = now,
                     completedTime = None\<rparr>
      in (session, st\<lparr>currentSessionId := ident + 1,
                       testSessions := AList.update ident session (testSessions st)\<rparr>))"

definition getTestSession :: "int \<Rightarrow> MemStorage \<Rightarrow> TestSession option" where
  "getTestSession ident st = map_of (testSessions st) ident"

text \<open>
  The partial update the client sends: \<^verbatim>\<open>{currentStep, isCompleted, completedTime}\<close>,
  where an undefined \<^verbatim>\<open>completedTime\<close> is dropped from the request body and leaves the
  stored field as it is.
\<close>

record SessionUpdates =
  upd_currentStep :: int
  upd_isCompleted :: bool
  upd_completedTime :: "nat option"

definition merge_updates :: "TestSession \<Rightarrow> SessionUpdates \<Rightarrow> TestSession" where
  "merge_updates session updates =
     session\<lparr>currentStep := upd_currentStep updates,
             isCompleted := upd_isCompleted updates,
             completedTime := (case upd_completedTime updates of
                                 None \<Rightarrow> completedTime session
                               | Some t \<Rightarrow> Some t)\<rparr>"

definition updateTestSession :: "int \<Rightarrow> SessionUpdates \<Rightarrow> MemStorage \<Rightarrow> TestSession option \<times> MemStorage" where
  "updateTestSession ident updates st =
     (case map_of (testSessions st) ident of
        None \<Rightarrow> (None, st)
      | Some session \<Rightarrow>
          (let updatedSession = merge_updates session updates
           in (Some updatedSession,
               st\<lparr>testSessions := AList.update ident updatedSession (testSessions st)\<rparr>)))"

definition createTestAttempt :: "nat \<Rightarrow> InsertTestAttempt \<Rightarrow> MemStorage \<Rightarrow> TestAttempt \<times> MemStorage" where
  "createTestAttempt now insertAttempt st =
     (let ident = currentAttemptId st;
          attempt = \<lparr>a_id = ident,
                     sessionId = ins_sessionId insertAttempt,
                     stepNumber = ins_stepNumber insertAttempt,
                     hotspotId = ins_hotspotId insertAttempt,
                     clickX = ins_clickX insertAttempt,
                     clickY = ins_clickY insertAttempt,
                     expectedX = ins_expectedX insertAttempt,
                     expectedY = ins_expectedY insertAttempt,
                     isCorrect = ins_isCorrect insertAttempt,
                     timeSpent = ins_timeSpent insertAttempt,
                     attemptTime = now\<rparr>
      in (attempt, st\<lparr>currentAttemptId := ident + 1,
                       testAttempts := AList.update ident attempt (testAttempts st)\<rparr>))"

definition getTestAttemptsBySession :: "int \<Rightarrow> MemStorage \<Rightarrow> TestAttempt list" where
  "getTestAttemptsBySession sid st =
     filter (\<lambda>attempt. sessionId attempt = sid) (map snd (testAttempts st))"

text \<open>
  The request validation of \<^verbatim>\<open>POST /api/test-attempts\<close>,
  \<^verbatim>\<open>insertTestAttemptSchema.parse(req.body)\<close>.  The schema is made from the table
  \<^verbatim>\<open>test_attempts\<close> without \<^verbatim>\<open>id\<close> and \<^verbatim>\<open>attemptTime\<close>: a value for an
  \<^verbatim>\<open>integer\<close> column has to be an integer number in the signed 32-bit range, and the
  \<^verbatim>\<open>text\<close> and \<^verbatim>\<open>boolean\<close> columns take every string and boolean.
\<close>

definition int32 :: "int \<Rightarrow> bool" where
  "int32 n = (- 2147483648 \<le> n \<and> n \<le> 2147483647)"

definition int32_number :: "real \<Rightarrow> bool" where
  "int32_number r = (of_int \<lfloor>r\<rfloor> = r \<and> - 2147483648 \<le> r \<and> r \<le> 2147483647)"

definition insertTestAttemptSchema_parse :: "InsertTestAttempt \<Rightarrow> bool" where
  "insertTestAttemptSchema_parse body =
     (int32 (ins_sessionId body) \<and> int32 (ins_stepNumber body)
      \<and> int32_number (ins_clickX body) \<and> int32_number (ins_clickY body)
      \<and> int32_number (ins_expectedX body) \<and> int32_number (ins_expectedY body)
      \<and> int32 (ins_timeSpent body))"

text \<open>
  The route \<^verbatim>\<open>POST /api/test-attempts\<close>: a body that passes the validation is stored
  with \<^verbatim>\<open>createTestAttempt\<close>; for any other body the parse throws, the route answers
  400 and the store is left as it is.
\<close>

definition post_test_attempts :: "nat \<Rightarrow> InsertTestAttempt \<Rightarrow> MemStorage \<Rightarrow> MemStorage" where
  "post_test_attempts now body st =
     (if insertTestAttemptSchema_parse body then snd (createTestAttempt now body st) else st)"

section \<open>The client's session hook\<close>

text \<open>
  The state the hook \<^verbatim>\<open>useTestSession\<close> works on: the store behind the REST routes,
  the hook's \<^verbatim>\<open>sessionId\<close> and \<^verbatim>\<open>stepStartTime\<close>.  The two mutations of
  \<^verbatim>\<open>handleHotspotClick\<close> are requests to \<^verbatim>\<open>POST /api/test-attempts\<close>, which
  validates its body before \<^verbatim>\<open>createTestAttempt\<close>, and to
  \<^verbatim>\<open>PATCH /api/test-sessions/:id\<close>, which passes its body to \<^verbatim>\<open>updateTestSession\<close>
  as it is.  The requests are taken to arrive, the hook ignores their outcome, and the
  hook's cached \<^verbatim>\<open>session\<close> is the stored one (it is refetched after every update).
  The update mutation throws, and sends nothing, when the hook has no session id.
\<close>

record world =
  storage :: MemStorage
  hook_sessionId :: "int option"
  stepStartTime :: nat

text \<open>
  The session query is enabled by \<^verbatim>\<open>!!sessionId\<close>: a null or zero id loads nothing.
\<close>

definition session :: "world \<Rightarrow> TestSession option" where
  "session w =
     (case hook_sessionId w of
        None \<Rightarrow> None
      | Some i \<Rightarrow> if i = 0 then None else getTestSession i (storage w))"

text \<open>
  \<^verbatim>\<open>session.hotspotData[session.currentStep - 1] || []\<close>: an index outside the array
  reads undefined, which becomes the empty list.
\<close>

definition index_or_empty :: "'a list list \<Rightarrow> int \<Rightarrow> 'a list" where
  "index_or_empty xss i = (if 0 \<le> i \<and> i < int (length xss) then xss ! nat i else [])"

definition handleHotspotClick ::
  "nat \<Rightarrow> string \<Rightarrow> real \<Rightarrow> real \<Rightarrow> bool \<Rightarrow> real \<Rightarrow> world \<Rightarrow> world" where
  "handleHotspotClick now hotspotId' clickX' clickY' isCorrect' timeSpent' w =
     (case session w of
        None \<Rightarrow> w
      | Some s \<Rightarrow>
          (let currentHotspots = index_or_empty (hotspotData s) (currentStep s - 1)
           in case find (\<lambda>h. h_id h = hotspotId') currentHotspots of
                None \<Rightarrow> w
              | Some targetHotspot \<Rightarrow>
                  (let st1 = post_test_attempts now
                               \<lparr>ins_sessionId = s_id s,
                                ins_stepNumber = currentStep s,
                                ins_hotspotId = hotspotId',
                                ins_clickX = clickX',
                                ins_clickY = clickY',
                                ins_expectedX = h_x targetHotspot,
                                ins_expectedY = h_y targetHotspot,
                                ins_isCorrect = isCorrect',
                                ins_timeSpent = round (timeSpent' * 1000)\<rparr>
                               (storage w);
                       w1 = w\<lparr>storage := st1\<rparr>
                   in if isCorrect' then
                        (let nextStep = currentStep s + 1;
                             isCompleted' = (nextStep > totalSteps s);
                             updates = \<lparr>upd_currentStep = nextStep,
                                        upd_isCompleted = isCompleted',
                                        upd_completedTime =
                                          (if isCompleted' then Some now else None)\<rparr>;
                             st2 = (case hook_sessionId w of
                                      None \<Rightarrow> st1
                                    | Some i \<Rightarrow>
                                        if i = 0 then st1
                                        else snd (updateTestSession i updates st1));
                             w2 = w1\<lparr>storage := st2\<rparr>
                         in if \<not> isCompleted' then w2\<lparr>stepStartTime := now\<rparr> else w2)
                      else w1)))"

text \<open>A reported click, and a sequence of them handled one after the other.\<close>

record reported_click =
  c_now :: nat
  c_hotspotId :: string
  c_clickX :: real
  c_clickY :: real
  c_isCorrect :: bool
  c_timeSpent :: real

definition handle_click :: "reported_click \<Rightarrow> world \<Rightarrow> world" where
  "handle_click c w =
     handleHotspotClick (c_now c) (c_hotspotId c) (c_clickX c) (c_clickY c)
       (c_isCorrect c) (c_timeSpent c) w"

definition handle_clicks :: "reported_click list \<Rightarrow> world \<Rightarrow> world" where
  "handle_clicks cs w = fold handle_click cs w"


text \<open>
  \<^verbatim>\<open>onSuccess\<close> of the hook's upload mutation: the session is created through
  \<^verbatim>\<open>POST /api/test-sessions\<close> from the frames, hotspots and step count of the upload
  data, then \<^verbatim>\<open>setSessionId(newSession.id)\<close> and \<^verbatim>\<open>setStepStartTime(Date.now())\<close>.
  The body of this request is taken to be one the route accepts.
\<close>

definition uploadVideo_onSuccess ::
  "nat \<Rightarrow> string list \<Rightarrow> HotspotData list list \<Rightarrow> int \<Rightarrow> world \<Rightarrow> world" where
  "uploadVideo_onSuccess now data_frames data_hotspotData data_totalSteps w =
     (let (newSession, st1) =
            createTestSession now
              \<lparr>ins_testName = ''CTRM Interface Test'',
               ins_userId = None,
               ins_extractedFrames = data_frames,
               ins_hotspotData = data_hotspotData,
               ins_totalSteps = data_totalSteps\<rparr>
              (storage w)
      in w\<lparr>storage := st1, hook_sessionId := Some (s_id newSession), stepStartTime := now\<rparr>)"

text \<open>The session invariant the specification states, as a predicate on a session.\<close>

definition session_invariant :: "TestSession \<Rightarrow> bool" where
  "session_invariant s =
     (1 \<le> currentStep s \<and> currentStep s \<le> totalSteps s + 1
      \<and> isCompleted s = (currentStep s > totalSteps s))"

section \<open>Strings\<close>

text \<open>
  The string operations the upload handler applies to the audio analysis output:
  \<^verbatim>\<open>split('\n')\<close>, \<^verbatim>\<open>includes\<close>, the regular expressions
  \<^verbatim>\<open>/silence_start: ([\d.]+)/\<close> and \<^verbatim>\<open>/silence_end: ([\d.]+)/\<close>, and
  \<^verbatim>\<open>parseFloat\<close> on their capture.
\<close>

definition newline :: char where
  "newline = CHR 0x0A"

fun split_lines :: "string \<Rightarrow> string list" where
  "split_lines [] = [[]]"
| "split_lines (c # cs) =
     (if c = newline then [] # split_lines cs
      else (case split_lines cs of [] \<Rightarrow> [[c]] | l # ls \<Rightarrow> (c # l) # ls))"

fun str_includes :: "string \<Rightarrow> string \<Rightarrow> bool" where
  "str_includes [] sub = (sub = [])"
| "str_includes (c # cs) sub = (prefix sub (c # cs) \<or> str_includes cs sub)"

definition isDigit :: "char \<Rightarrow> bool" where
  "isDigit c = (c \<in> set ''0123456789'')"

text \<open>The character class \<^verbatim>\<open>[\d.]\<close>.\<close>

definition isNumChar :: "char \<Rightarrow> bool" where
  "isNumChar c = (isDigit c \<or> c = CHR ''.'')"

text \<open>
  \<^verbatim>\<open>line.match(/pat([\d.]+)/)\<close> for a literal \<open>pat\<close>: the leftmost position where
  \<open>pat\<close> is followed by at least one character of the class; the capture is the longest
  run of such characters.  \<open>None\<close> is the null result.
\<close>

fun match_number_after :: "string \<Rightarrow> string \<Rightarrow> string option" where
  "match_number_after pat [] = None"
| "match_number_after pat (c # cs) =
     (if prefix pat (c # cs) \<and> takeWhile isNumChar (drop (length pat) (c # cs)) \<noteq> []
      then Some (takeWhile isNumChar (drop (length pat) (c # cs)))
      else match_number_after pat cs)"

definition digit_value :: "char \<Rightarrow> nat" where
  "digit_value c = of_char c - 48"

definition digits_value :: "string \<Rightarrow> nat" where
  "digits_value cs = foldl (\<lambda>acc c. 10 * acc + digit_value c) 0 cs"

text \<open>
  \<^verbatim>\<open>parseFloat\<close> on a capture, a string of digits and dots: the longest prefix of the
  form digits, optionally a dot and digits; NaN (\<open>None\<close>) when that prefix has no digit.
  The value is the exact decimal one.
\<close>

definition parseFloat :: "string \<Rightarrow> real option" where
  "parseFloat str =
     (let ip = takeWhile isDigit str;
          rest = dropWhile isDigit str;
          fp = (case rest of
                  [] \<Rightarrow> []
                | c # cs \<Rightarrow> if c = CHR ''.'' then takeWhile isDigit cs else [])
      in if ip = [] \<and> fp = [] then None
         else Some (real (digits_value ip) + real (digits_value fp) / 10 ^ length fp))"

definition digit_char :: "nat \<Rightarrow> char" where
  "digit_char d = ''0123456789'' ! d"

text \<open>\<^verbatim>\<open>toString()\<close> of a non-negative integer, and \<^verbatim>\<open>padStart\<close>.\<close>

fun toString :: "nat \<Rightarrow> string" where
  "toString n =
     (if n < 10 then [digit_char n] else toString (n div 10) @ [digit_char (n mod 10)])"

declare toString.simps [simp del]

definition padStart :: "nat \<Rightarrow> char \<Rightarrow> string \<Rightarrow> string" where
  "padStart n c s = replicate (n - length s) c @ s"

text \<open>\<^verbatim>\<open>path.basename\<close> of a path that does not end in a slash.\<close>

definition basename :: "string \<Rightarrow> string" where
  "basename p = rev (takeWhile (\<lambda>c. c \<noteq> CHR ''/'') (rev p))"

section \<open>Speech segmentation\<close>

record segment =
  seg_start :: real
  seg_end :: real

text \<open>
  The variables of the segmentation loop.  \<^verbatim>\<open>silenceStart\<close> is null (\<open>None\<close>) or a
  number, \<^verbatim>\<open>lastSpeechEnd\<close> is a number; a number that is NaN is \<open>None\<close>.
\<close>

record audio_state =
  speechSegments :: "segment list"
  silenceStart :: "real option option"
  lastSpeechEnd :: "real option"

definition audio_init :: audio_state where
  "audio_init = \<lparr>speechSegments = [], silenceStart = None, lastSpeechEnd = Some 0\<rparr>"

text \<open>
  The body of \<^verbatim>\<open>for (const line of lines)\<close>.  The comparison
  \<^verbatim>\<open>start > lastSpeechEnd + 3\<close> is false when either side is NaN.
\<close>

definition audio_line :: "string \<Rightarrow> audio_state \<Rightarrow> audio_state" where
  "audio_line line st =
     (if str_includes line ''silence_start:'' then
        (case match_number_after ''silence_start: '' line of
           None \<Rightarrow> st
         | Some m \<Rightarrow>
             if silenceStart st = None then
               (let start = parseFloat m;
                    st1 = (case (start, lastSpeechEnd st) of
                             (Some a, Some b) \<Rightarrow>
                               if a > b + 3
                               then st\<lparr>speechSegments :=
                                        speechSegments st @ [\<lparr>seg_start = b, seg_end = a\<rparr>]\<rparr>
                               else st
                           | _ \<Rightarrow> st)
                in st1\<lparr>silenceStart := Some start\<rparr>)
             else st)
      else if str_includes line ''silence_end:'' \<and> silenceStart st \<noteq> None then
        (case match_number_after ''silence_end: '' line of
           None \<Rightarrow> st
         | Some m \<Rightarrow> st\<lparr>lastSpeechEnd := parseFloat m, silenceStart := None\<rparr>)
      else st)"

definition parse_audio :: "string \<Rightarrow> segment list" where
  "parse_audio audioData = speechSegments (fold audio_line (split_lines audioData) audio_init)"

text \<open>
  What a line is to the loop: a silence-start whose number the first regular expression
  captures, or (only when the line does not contain \<^verbatim>\<open>silence_start:\<close>) a silence-end
  whose number the second one captures.
\<close>

definition silence_start_match :: "string \<Rightarrow> string option" where
  "silence_start_match line =
     (if str_includes line ''silence_start:''
      then match_number_after ''silence_start: '' line else None)"

definition silence_end_match :: "string \<Rightarrow> string option" where
  "silence_end_match line =
     (if \<not> str_includes line ''silence_start:'' \<and> str_includes line ''silence_end:''
      then match_number_after ''silence_end: '' line else None)"

text \<open>
  The \<^verbatim>\<open>catch\<close> branch:
  \<^verbatim>\<open>Array.from({length: Math.ceil(videoDuration / 15)},
     (_, i) => ({start: i * 15, end: i * 15 + 2}))\<close> with \<^verbatim>\<open>videoDuration = 300\<close>.
\<close>

definition fallback_segments :: "segment list" where
  "fallback_segments =
     (let videoDuration = (300::real)
      in map (\<lambda>i. \<lparr>seg_start = real i * 15, seg_end = real i * 15 + 2\<rparr>)
           [0..<nat \<lceil>videoDuration / 15\<rceil>])"

datatype event_type = speech | click | quick_extract

text \<open>The messages written with \<^verbatim>\<open>console.log\<close> that the model keeps.\<close>

datatype console_line =
    CouldNotParseAudio
  | FailedToExtract event_type real

text \<open>
  The \<^verbatim>\<open>try\<close> block around the parse.  Only \<^verbatim>\<open>readFileSync\<close> can throw in it, before
  any segment is pushed; its argument here is the content read, \<open>None\<close> when the read
  throws.  The result is the segment list and what was logged.
\<close>

definition speech_segments :: "string option \<Rightarrow> segment list \<times> console_line list" where
  "speech_segments audioFile =
     (case audioFile of
        Some audioData \<Rightarrow> (parse_audio audioData, [])
      | None \<Rightarrow> (fallback_segments, [CouldNotParseAudio]))"

section \<open>Candidate events\<close>

definition type_name :: "event_type \<Rightarrow> string" where
  "type_name t =
     (case t of speech \<Rightarrow> ''speech'' | click \<Rightarrow> ''click'' | quick_extract \<Rightarrow> ''quick_extract'')"

text \<open>
  An element of \<^verbatim>\<open>clickEvents\<close>, the list built from the scene-change output, with its
  optional position.  The list is an input of the model, and its timestamps and
  confidences are numbers: a scene-change line whose timestamp parses to NaN is outside the
  model.
\<close>

record clickEvent =
  ce_timestamp :: real
  ce_x :: "real option"
  ce_y :: "real option"
  ce_confidence :: real

record candidateEvent =
  ev_timestamp :: real
  ev_type :: event_type
  ev_confidence :: real
  ev_reason :: string
  ev_x :: real
  ev_y :: real

text \<open>\<^verbatim>\<open>c.x || 400\<close>: an undefined or zero value gives the default.\<close>

definition or_default :: "real option \<Rightarrow> real \<Rightarrow> real" where
  "or_default v d = (case v of None \<Rightarrow> d | Some r \<Rightarrow> if r = 0 then d else r)"

text \<open>
  \<^verbatim>\<open>speechSegments.map(s => ...)\<close>.  \<open>random k\<close> is the value of the \<open>k\<close>-th call of
  \<^verbatim>\<open>Math.random()\<close> made by the map, counted from 0; each segment makes two calls, for
  \<^verbatim>\<open>x\<close> and then for \<^verbatim>\<open>y\<close>.
\<close>

definition speech_events :: "(nat \<Rightarrow> real) \<Rightarrow> segment list \<Rightarrow> candidateEvent list" where
  "speech_events random segs =
     map (\<lambda>(j, s).
            \<lparr>ev_timestamp = seg_start s + (seg_end s - seg_start s) / 2,
             ev_type = speech,
             ev_confidence = 0.7,
             ev_reason = ''Speech detected'',
             ev_x = 400 + random (2 * j) * 200,
             ev_y = 300 + random (2 * j + 1) * 200\<rparr>)
         (enumerate 0 segs)"

definition click_events :: "clickEvent list \<Rightarrow> candidateEvent list" where
  "click_events cs =
     map (\<lambda>c.
            \<lparr>ev_timestamp = ce_timestamp c,
             ev_type = click,
             ev_confidence = ce_confidence c,
             ev_reason = ''Visual change detected (potential click)'',
             ev_x = or_default (ce_x c) 400,
             ev_y = or_default (ce_y c) 300\<rparr>)
         cs"

text \<open>
  \<^verbatim>\<open>[...speech, ...clicks].sort((a, b) => a.timestamp - b.timestamp)\<close>: the sort of the
  language is stable, as the insertion sort \<^const>\<open>sort_key\<close> is.
\<close>

definition combinedEvents ::
  "(nat \<Rightarrow> real) \<Rightarrow> segment list \<Rightarrow> clickEvent list \<Rightarrow> candidateEvent list" where
  "combinedEvents random segs cs =
     sort_key ev_timestamp (speech_events random segs @ click_events cs)"

section \<open>Frames\<close>

record clickData =
  cd_x :: real
  cd_y :: real
  cd_confidence :: real
  cd_reason :: string

record frame =
  url :: string
  f_type :: event_type
  filename :: string
  f_timestamp :: real
  selected :: bool
  clickData :: clickData

text \<open>
  The file system the handler works on: a path holds a file with its content, a directory,
  or nothing.
\<close>

datatype node = File string | Dir

type_synonym filesystem = "string \<Rightarrow> node option"

definition frame_url :: "string \<Rightarrow> string \<Rightarrow> string" where
  "frame_url outputDir file = ''/api/frames/'' @ basename outputDir @ ''/'' @ file"

definition frame_filename :: "candidateEvent \<Rightarrow> nat \<Rightarrow> string" where
  "frame_filename event i =
     type_name (ev_type event) @ ''_'' @ padStart 3 (CHR ''0'') (toString i) @ ''.png''"

text \<open>The object pushed to \<^verbatim>\<open>frameData\<close> for the event at index \<open>i\<close>.\<close>

definition smart_frame :: "string \<Rightarrow> nat \<Rightarrow> candidateEvent \<Rightarrow> frame" where
  "smart_frame outputDir i event =
     \<lparr>url = frame_url outputDir (frame_filename event i),
      f_type = ev_type event,
      filename = frame_filename event i,
      f_timestamp = ev_timestamp event,
      selected = (ev_type event = click \<or> ev_confidence event > 0.8),
      clickData = \<lparr>cd_x = ev_x event, cd_y = ev_y event,
                   cd_confidence = ev_confidence event,
                   cd_reason = ev_reason event\<rparr>\<rparr>"

text \<open>The source event a frame descriptor carries in its fields.\<close>

definition frame_event :: "frame \<Rightarrow> candidateEvent" where
  "frame_event f =
     \<lparr>ev_timestamp = f_timestamp f,
      ev_type = f_type f,
      ev_confidence = cd_confidence (clickData f),
      ev_reason = cd_reason (clickData f),
      ev_x = cd_x (clickData f),
      ev_y = cd_y (clickData f)\<rparr>"

record extraction =
  frameData :: "frame list"
  files :: filesystem
  console :: "console_line list"

text \<open>
  One round of the extraction loop.  \<open>extract_ok i\<close> tells whether the external extraction
  command of round \<open>i\<close> succeeds; when it does, it has written the image file (whose
  content is not modelled and stands as \<open>''png''\<close>), and when it throws, the failure is
  logged and the loop goes on.
\<close>

definition extract_step ::
  "string \<Rightarrow> (nat \<Rightarrow> bool) \<Rightarrow> candidateEvent list \<Rightarrow> nat \<Rightarrow> extraction \<Rightarrow> extraction" where
  "extract_step outputDir extract_ok events i acc =
     (let event = events ! i;
          filename' = frame_filename event i
      in if extract_ok i then
           acc\<lparr>frameData := frameData acc @ [smart_frame outputDir i event],
               files := (files acc)(outputDir @ ''/'' @ filename' \<mapsto> File ''png'')\<rparr>
         else acc\<lparr>console :=
                    console acc @ [FailedToExtract (ev_type event) (ev_timestamp event)]\<rparr>)"

text \<open>
  \<^verbatim>\<open>for (let i = 0; i < Math.min(combinedEvents.length, 20); i++)\<close>; every index read
  is inside the list.
\<close>

definition extract_frames ::
  "string \<Rightarrow> (nat \<Rightarrow> bool) \<Rightarrow> candidateEvent list \<Rightarrow> filesystem \<Rightarrow> extraction" where
  "extract_frames outputDir extract_ok events fs =
     fold (extract_step outputDir extract_ok events) [0..<min (length events) 20]
       \<lparr>frameData = [], files = fs, console = []\<rparr>"

text \<open>
  Quick mode: the directory listing, filtered, sorted and mapped with its index.
\<close>

definition quick_frames :: "string \<Rightarrow> string list \<Rightarrow> frame list" where
  "quick_frames outputDir dir_listing =
     map (\<lambda>(index, file).
            \<lparr>url = frame_url outputDir file,
             f_type = quick_extract,
             filename = file,
             f_timestamp = real (index * 10),
             selected = True,
             clickData = \<lparr>cd_x = real (400 + (index * 50) mod 400),
                          cd_y = real (300 + (index * 30) mod 300),
                          cd_confidence = 0.7,
                          cd_reason = ''Regular interval extraction''\<rparr>\<rparr>)
         (enumerate 0
            (sort (filter (\<lambda>file. prefix ''quick_'' file \<and> suffix ''.png'' file) dir_listing)))"

section \<open>The upload handler\<close>

text \<open>
  What a run of \<^verbatim>\<open>POST /api/upload-video\<close> depends on besides the file system: the
  request (\<^verbatim>\<open>req.file.path\<close> when a file was uploaded, the quick mode flag), the clock,
  and the outcome of the external commands:
  \<^item> \<open>quick_written\<close>, \<open>quick_failed\<close>: the names the quick extraction command writes into
    the output directory, and whether it throws;
  \<^item> \<open>analysis_written\<close>: the files, name and content, that the audio and scene-change
    commands leave in the output directory (their failure is caught and ignored);
  \<^item> \<open>clickEvents\<close>: the click candidates read from the scene-change output;
  \<^item> \<open>extract_ok\<close>: the outcome of each frame extraction command;
  \<^item> \<open>random\<close>: the values of \<^verbatim>\<open>Math.random()\<close>.
\<close>

record upload_env =
  req_file :: "string option"
  quickMode :: bool
  date_now :: nat
  quick_written :: "string list"
  quick_failed :: bool
  analysis_written :: "(string \<times> string) list"
  clickEvents :: "clickEvent list"
  extract_ok :: "nat \<Rightarrow> bool"
  random :: "nat \<Rightarrow> real"

text \<open>
  The responses: status 400, status 500, and the two successful bodies with their frame
  list (the smart one also with the two counts).
\<close>

datatype response =
    BadRequest
  | ServerError
  | QuickOk "frame list"
  | SmartOk "frame list" nat nat

definition is_success :: "response \<Rightarrow> bool" where
  "is_success r =
     (case r of QuickOk fr \<Rightarrow> True | SmartOk fr n m \<Rightarrow> True | BadRequest \<Rightarrow> False
      | ServerError \<Rightarrow> False)"

definition response_frames :: "response \<Rightarrow> frame list" where
  "response_frames r =
     (case r of QuickOk fr \<Rightarrow> fr | SmartOk fr n m \<Rightarrow> fr | BadRequest \<Rightarrow> []
      | ServerError \<Rightarrow> [])"

definition write_files :: "string \<Rightarrow> (string \<times> string) list \<Rightarrow> filesystem \<Rightarrow> filesystem" where
  "write_files dir written fs =
     fold (\<lambda>(name, content) fs'. fs'(dir @ ''/'' @ name \<mapsto> File content)) written fs"

text \<open>File system calls that throw return \<open>None\<close>.\<close>

definition readFileSync :: "filesystem \<Rightarrow> string \<Rightarrow> string option" where
  "readFileSync fs p = (case fs p of Some (File content) \<Rightarrow> Some content | _ \<Rightarrow> None)"

definition unlinkSync :: "filesystem \<Rightarrow> string \<Rightarrow> filesystem option" where
  "unlinkSync fs p = (case fs p of Some (File content) \<Rightarrow> Some (fs(p := None)) | _ \<Rightarrow> None)"

text \<open>\<^verbatim>\<open>if (!fs.existsSync("frames")) fs.mkdirSync("frames")\<close>\<close>

definition mkdir_frames :: "filesystem \<Rightarrow> filesystem" where
  "mkdir_frames fs = (if fs ''frames'' = None then fs(''frames'' \<mapsto> Dir) else fs)"

text \<open>
  \<^verbatim>\<open>fs.mkdirSync(p)\<close> for \<open>p\<close> directly under \<open>parent\<close>: it throws when the path exists
  or the parent is not a directory.
\<close>

definition mkdirSync :: "filesystem \<Rightarrow> string \<Rightarrow> string \<Rightarrow> filesystem option" where
  "mkdirSync fs parent p =
     (if fs parent = Some Dir \<and> fs p = None then Some (fs(p \<mapsto> Dir)) else None)"

text \<open>
  The quick mode block of the handler, entered with the output directory created: the
  extraction command, the listing of the output directory (new when the command runs, so
  it holds the names the command wrote), the removal of the upload and the response.  An
  exception leaves the block for the handler's \<^verbatim>\<open>catch\<close>, which answers 500 and does
  nothing else.
\<close>

definition quick_mode ::
  "upload_env \<Rightarrow> string \<Rightarrow> string \<Rightarrow> filesystem \<Rightarrow> response \<times> filesystem" where
  "quick_mode env outputDir videoPath fs2 =
     (let fs3 = write_files outputDir (map (\<lambda>name. (name, ''png'')) (quick_written env)) fs2
      in if quick_failed env then (ServerError, fs3)
         else
           (let quickFiles = quick_frames outputDir (remdups (quick_written env))
            in case unlinkSync fs3 videoPath of
                 None \<Rightarrow> (ServerError, fs3)
               | Some fs4 \<Rightarrow> (QuickOk quickFiles, fs4)))"

text \<open>
  The rest of the handler, smart mode: the two analysis commands, the speech segments, the
  combined events, the extraction loop, then \<^verbatim>\<open>fs.unlinkSync(videoPath)\<close> under the
  comment \<^verbatim>\<open>// Clean up temporary files\<close>, and the response.
\<close>

definition smart_mode ::
  "upload_env \<Rightarrow> string \<Rightarrow> string \<Rightarrow> filesystem \<Rightarrow> response \<times> filesystem" where
  "smart_mode env outputDir videoPath fs2 =
     (let fs3 = write_files outputDir (analysis_written env) fs2;
          speechSegments' =
            fst (speech_segments (readFileSync fs3 (outputDir @ ''/audio_analysis.txt'')));
          events = combinedEvents (random env) speechSegments' (clickEvents env);
          ex = extract_frames outputDir (extract_ok env) events fs3
      in case unlinkSync (files ex) videoPath of
           None \<Rightarrow> (ServerError, files ex)
         | Some fs5 \<Rightarrow>
             (SmartOk (frameData ex) (length speechSegments') (length (clickEvents env)),
              fs5))"

text \<open>
  The value of \<^verbatim>\<open>combinedEvents\<close> in a smart run entered with the file system \<open>fs2\<close>,
  named for the statements about the run.
\<close>

definition smart_events :: "upload_env \<Rightarrow> string \<Rightarrow> filesystem \<Rightarrow> candidateEvent list" where
  "smart_events env outputDir fs2 =
     combinedEvents (random env)
       (fst (speech_segments
               (readFileSync (write_files outputDir (analysis_written env) fs2)
                  (outputDir @ ''/audio_analysis.txt''))))
       (clickEvents env)"

text \<open>
  The handler of \<^verbatim>\<open>POST /api/upload-video\<close>: the check of the upload, the output
  directory \<^verbatim>\<open>frames/${Date.now()}\<close>, and one of the two modes.
\<close>

definition upload_video :: "upload_env \<Rightarrow> filesystem \<Rightarrow> response \<times> filesystem" where
  "upload_video env fs =
     (case req_file env of
        None \<Rightarrow> (BadRequest, fs)
      | Some videoPath \<Rightarrow>
          (let outputDir = ''frames/'' @ toString (date_now env);
               fs1 = mkdir_frames fs
           in case mkdirSync fs1 ''frames'' outputDir of
                None \<Rightarrow> (ServerError, fs1)
              | Some fs2 \<Rightarrow>
                  if quickMode env then quick_mode env outputDir videoPath fs2
                  else smart_mode env outputDir videoPath fs2))"

text \<open>A path that holds a file.\<close>

definition is_file :: "filesystem \<Rightarrow> string \<Rightarrow> bool" where
  "is_file fs p = (case fs p of Some (File content) \<Rightarrow> True | _ \<Rightarrow> False)"

section \<open>Sample inputs\<close>

text \<open>Concrete inputs on which the results below are evaluated.\<close>

definition sample_hotspots :: "HotspotData list list" where
  "sample_hotspots =
     [[\<lparr>h_id = ''a'', h_x = 100, h_y = 100, h_label = ''Open''\<rparr>],
      [\<lparr>h_id = ''b'', h_x = 200, h_y = 150, h_label = ''Save''\<rparr>],
      [\<lparr>h_id = ''c'', h_x = 300, h_y = 250, h_label = ''Close''\<rparr>]]"

definition empty_world :: world where
  "empty_world = \<lparr>storage = MemStorage_new, hook_sessionId = None, stepStartTime = 0\<rparr>"

definition sample_world :: world where
  "sample_world = uploadVideo_onSuccess 0 [''f1'', ''f2'', ''f3''] sample_hotspots 3 empty_world"

definition sample_click :: "string \<Rightarrow> bool \<Rightarrow> reported_click" where
  "sample_click hid ok =
     \<lparr>c_now = 5, c_hotspotId = hid, c_clickX = 110, c_clickY = 90, c_isCorrect = ok,
      c_timeSpent = 2\<rparr>"

definition sample_audio :: string where
  "sample_audio =
     ''[silencedetect @ 0x55d] silence_start: 5'' @ [newline] @
     ''[silencedetect @ 0x55d] silence_end: 6 | silence_duration: 1'' @ [newline] @
     ''[silencedetect @ 0x55d] silence_start: 20'' @ [newline]"

definition sample_fs :: filesystem where
  "sample_fs = [''uploads/v1'' \<mapsto> File ''video'']"

text \<open>A smart run whose audio analysis output is readable and empty, with no click event.\<close>

definition sample_env :: upload_env where
  "sample_env =
     \<lparr>req_file = Some ''uploads/v1'', quickMode = False, date_now = 7,
      quick_written = [], quick_failed = False,
      analysis_written = [(''audio_analysis.txt'', [])],
      clickEvents = [],
      extract_ok = (\<lambda>i. True), random = (\<lambda>k. 1 / 2)\<rparr>"

definition sample_clicks :: "clickEvent list" where
  "sample_clicks =
     map (\<lambda>i. \<lparr>ce_timestamp = 20 * real i + 1, ce_x = Some 410, ce_y = Some 220,
                ce_confidence = 0.9\<rparr>) [0..<15]"

text \<open>
  A smart run with no audio analysis file (the fallback grid of 20 segments) and 15 click
  events: 35 candidates.
\<close>

definition sample_env35 :: upload_env where
  "sample_env35 =
     \<lparr>req_file = Some ''uploads/v1'', quickMode = False, date_now = 7,
      quick_written = [], quick_failed = False,
      analysis_written = [],
      clickEvents = sample_clicks,
      extract_ok = (\<lambda>i. True), random = (\<lambda>k. 1 / 2)\<rparr>"

definition sample_quick_env :: upload_env where
  "sample_quick_env =
     \<lparr>req_file = Some ''uploads/v1'', quickMode = True, date_now = 7,
      quick_written = [''quick_002.png'', ''quick_001.png''], quick_failed = False,
      analysis_written = [],
      clickEvents = [],
      extract_ok = (\<lambda>i. True), random = (\<lambda>k. 1 / 2)\<rparr>"

text \<open>A smart run with the sample audio output and one click event of confidence 0.5.\<close>

definition sample_env_mixed :: upload_env where
  "sample_env_mixed =
     \<lparr>req_file = Some ''uploads/v1'', quickMode = False, date_now = 7,
      quick_written = [], quick_failed = False,
      analysis_written = [(''audio_analysis.txt'', sample_audio)],
      clickEvents = [\<lparr>ce_timestamp = 4, ce_x = Some 410, ce_y = Some 220, ce_confidence = 0.5\<rparr>],
      extract_ok = (\<lambda>i. True), random = (\<lambda>k. 1 / 2)\<rparr>"

text \<open>The same run with the extraction of the second event failing.\<close>

definition sample_env_partial :: upload_env where
  "sample_env_partial = sample_env_mixed\<lparr>extract_ok := (\<lambda>i. i \<noteq> 1)\<rparr>"

section \<open>Results: attempt scoring\<close>

text \<open>
  C1.  The attempt scorer answers true exactly when the click is within the tolerance of
  the target on each axis separately, that is inside the axis-aligned square of half-width
  \<open>t\<close> around the target; the display component's inlined check is the scorer at its
  default tolerance 25.  Around (100, 100) with tolerance 25 the clicks (125, 125) and
  (75, 75) are correct, (126, 100) and (74, 100) are not; the corner (125, 125) is accepted
  although its Euclidean distance from the target exceeds 25.
\<close>

theorem validateClickTolerance_square:
  "validateClickTolerance x y ex ey t = (\<bar>x - ex\<bar> \<le> t \<and> \<bar>y - ey\<bar> \<le> t)
   \<and> validateClickTolerance x y ex ey t
       = (ex - t \<le> x \<and> x \<le> ex + t \<and> ey - t \<le> y \<and> y \<le> ey + t)
   \<and> validateClickTolerance_default x y ex ey = (\<bar>x - ex\<bar> \<le> 25 \<and> \<bar>y - ey\<bar> \<le> 25)
   \<and> display_isCorrect x y h = validateClickTolerance_default x y (h_x h) (h_y h)
   \<and> validateClickTolerance 125 125 100 100 25
   \<and> \<not> validateClickTolerance 126 100 100 100 25
   \<and> validateClickTolerance 75 75 100 100 25
   \<and> \<not> validateClickTolerance 74 100 100 100 25
   \<and> (125 - 100)\<^sup>2 + (125 - 100)\<^sup>2 > (25::real)\<^sup>2"
  by (auto simp add: validateClickTolerance_def validateClickTolerance_default_def
      display_isCorrect_def)


section \<open>Results: the session state machine\<close>

lemma session_SomeD:
  "session w = Some s \<Longrightarrow>
   \<exists>i. hook_sessionId w = Some i \<and> i \<noteq> 0 \<and> map_of (testSessions (storage w)) i = Some s"
  by (auto simp: session_def getTestSession_def split: option.splits if_splits)

lemma testSessions_createTestAttempt [simp]:
  "testSessions (snd (createTestAttempt now a st)) = testSessions st"
  by (simp add: createTestAttempt_def Let_def)

lemma testAttempts_updateTestSession [simp]:
  "testAttempts (snd (updateTestSession i u st)) = testAttempts st"
  by (simp add: updateTestSession_def Let_def split: option.splits)

lemma testSessions_post_test_attempts [simp]:
  "testSessions (post_test_attempts now a st) = testSessions st"
  by (simp add: post_test_attempts_def)


lemma handleHotspotClick_found:
  assumes "session w = Some s"
    and "find (\<lambda>h. h_id h = hid) (index_or_empty (hotspotData s) (currentStep s - 1)) = Some h"
  shows "session (handleHotspotClick now hid cx cy ok ts w) =
           (if ok then Some (s\<lparr>currentStep := currentStep s + 1,
                               isCompleted := (currentStep s + 1 > totalSteps s),
                               completedTime := (if currentStep s + 1 > totalSteps s
                                                 then Some now else completedTime s)\<rparr>)
            else Some s)"
proof -
  from assms(1) obtain i where i: "hook_sessionId w = Some i" "i \<noteq> 0"
    "map_of (testSessions (storage w)) i = Some s"
    using session_SomeD by blast
  show ?thesis
    using assms i
    by (simp add: handleHotspotClick_def Let_def session_def getTestSession_def
        updateTestSession_def merge_updates_def AList.update_conv')
qed





lemma sample_session:
  "session sample_world =
     Some \<lparr>s_id = 1, testName = ''CTRM Interface Test'', userId = None,
           extractedFrames = [''f1'', ''f2'', ''f3''], hotspotData = sample_hotspots,
           totalSteps = 3, currentStep = 1, isCompleted = False, startTime = 0,
           completedTime = None\<rparr>"
  by (simp add: sample_world_def empty_world_def uploadVideo_onSuccess_def createTestSession_def
      MemStorage_new_def or_null_def Let_def session_def getTestSession_def)




text \<open>
  C10.  A click reported while no session is loaded, or on a hotspot id that is not among
  the hotspots of the session's current step, changes nothing: the store (attempts and
  session) and the hook state are as before.
\<close>

theorem handleHotspotClick_noop:
  assumes "session w = None
     \<or> (\<exists>s. session w = Some s
           \<and> find (\<lambda>h. h_id h = hid) (index_or_empty (hotspotData s) (currentStep s - 1)) = None)"
  shows "handleHotspotClick now hid cx cy ok ts w = w"
  using assms by (auto simp: handleHotspotClick_def Let_def)

text \<open>
  On the sample session at step 1 a click on the hotspot of step 2 is ignored, and so is
  any click before a session exists.
\<close>

theorem handleHotspotClick_noop_witness:
  "session sample_world \<noteq> None
   \<and> handleHotspotClick 5 ''b'' 110 90 True 2 sample_world = sample_world
   \<and> session empty_world = None
   \<and> handleHotspotClick 5 ''a'' 110 90 True 2 empty_world = empty_world"
proof -
  have 1: "session sample_world = None
     \<or> (\<exists>s. session sample_world = Some s
           \<and> find (\<lambda>h. h_id h = ''b'') (index_or_empty (hotspotData s) (currentStep s - 1)) = None)"
    by (simp add: sample_session sample_hotspots_def index_or_empty_def)
  have e: "session empty_world = None"
    by (simp add: session_def empty_world_def)
  then have 2: "session empty_world = None
     \<or> (\<exists>s. session empty_world = Some s
           \<and> find (\<lambda>h. h_id h = ''a'') (index_or_empty (hotspotData s) (currentStep s - 1)) = None)"
    by simp
  show ?thesis
    using handleHotspotClick_noop [OF 1, of 5 110 90 True 2]
      handleHotspotClick_noop [OF 2, of 5 110 90 True 2] e
    by (simp add: sample_session)
qed

lemma handle_click_inv:
  assumes i: "hook_sessionId w = Some i" "i \<noteq> 0"
    and s: "map_of (testSessions (storage w)) i = Some s"
    and len: "int (length (hotspotData s)) \<le> totalSteps s"
  shows "\<exists>s'. hook_sessionId (handle_click c w) = Some i
     \<and> map_of (testSessions (storage (handle_click c w))) i = Some s'
     \<and> hotspotData s' = hotspotData s \<and> totalSteps s' = totalSteps s
     \<and> (currentStep s' = currentStep s \<and> isCompleted s' = isCompleted s
         \<or> currentStep s \<le> totalSteps s \<and> currentStep s' = currentStep s + 1
           \<and> isCompleted s' = (currentStep s' > totalSteps s))"
proof -
  have sess: "session w = Some s"
    using i s by (simp add: session_def getTestSession_def)
  let ?hs = "index_or_empty (hotspotData s) (currentStep s - 1)"
  show ?thesis
  proof (cases "find (\<lambda>h. h_id h = c_hotspotId c) ?hs")
    case None
    then have "handle_click c w = w"
      using sess by (simp add: handle_click_def handleHotspotClick_def Let_def)
    then show ?thesis using i s by simp
  next
    case (Some h)
    then have "?hs \<noteq> []" by auto
    then have idx: "currentStep s - 1 < int (length (hotspotData s))"
      by (auto simp: index_or_empty_def split: if_splits)
    have hk: "hook_sessionId (handle_click c w) = Some i"
      using sess Some i by (simp add: handle_click_def handleHotspotClick_def Let_def)
    have m: "map_of (testSessions (storage (handle_click c w))) i = session (handle_click c w)"
      using hk i by (simp add: session_def getTestSession_def)
    show ?thesis
      using handleHotspotClick_found [OF sess Some, of "c_now c" "c_clickX c" "c_clickY c"
          "c_isCorrect c" "c_timeSpent c"] hk m idx len
      by (cases "c_isCorrect c") (auto simp: handle_click_def)
  qed
qed

lemma handle_clicks_inv:
  assumes "hook_sessionId w = Some i" "i \<noteq> 0"
    and "map_of (testSessions (storage w)) i = Some s"
    and "int (length (hotspotData s)) \<le> totalSteps s"
    and "1 \<le> currentStep s" "currentStep s \<le> totalSteps s + 1"
    and "1 \<le> totalSteps s \<and> isCompleted s = (currentStep s > totalSteps s)
         \<or> totalSteps s = 0 \<and> currentStep s = 1 \<and> \<not> isCompleted s"
  shows "\<exists>s'. session (handle_clicks cs w) = Some s'
     \<and> totalSteps s' = totalSteps s
     \<and> 1 \<le> currentStep s' \<and> currentStep s' \<le> totalSteps s + 1
     \<and> (1 \<le> totalSteps s \<and> isCompleted s' = (currentStep s' > totalSteps s)
          \<or> totalSteps s = 0 \<and> currentStep s' = 1 \<and> \<not> isCompleted s')"
  using assms
proof (induction cs arbitrary: w s)
  case Nil
  then show ?case by (simp add: handle_clicks_def session_def getTestSession_def)
next
  case (Cons c cs)
  from handle_click_inv [OF Cons.prems(1-4), of c]
  obtain s' where s': "hook_sessionId (handle_click c w) = Some i"
    "map_of (testSessions (storage (handle_click c w))) i = Some s'"
    "hotspotData s' = hotspotData s" "totalSteps s' = totalSteps s"
    "currentStep s' = currentStep s \<and> isCompleted s' = isCompleted s
       \<or> currentStep s \<le> totalSteps s \<and> currentStep s' = currentStep s + 1
         \<and> isCompleted s' = (currentStep s' > totalSteps s)"
    by blast
  have "\<exists>s''. session (handle_clicks cs (handle_click c w)) = Some s''
     \<and> totalSteps s'' = totalSteps s'
     \<and> 1 \<le> currentStep s'' \<and> currentStep s'' \<le> totalSteps s' + 1
     \<and> (1 \<le> totalSteps s' \<and> isCompleted s'' = (currentStep s'' > totalSteps s')
          \<or> totalSteps s' = 0 \<and> currentStep s'' = 1 \<and> \<not> isCompleted s'')"
  proof (rule Cons.IH [OF s'(1) Cons.prems(2) s'(2)])
    show "int (length (hotspotData s')) \<le> totalSteps s'"
      using s'(3,4) Cons.prems(4) by simp
    show "1 \<le> currentStep s'" using s'(5) Cons.prems(5) by auto
    show "currentStep s' \<le> totalSteps s' + 1" using s'(4,5) Cons.prems(6) by auto
    show "1 \<le> totalSteps s' \<and> isCompleted s' = (currentStep s' > totalSteps s')
       \<or> totalSteps s' = 0 \<and> currentStep s' = 1 \<and> \<not> isCompleted s'"
      using s'(4,5) Cons.prems(5,7) by auto
  qed
  then show ?case by (simp add: handle_clicks_def s'(4))
qed

lemma onSuccess_session:
  shows "hook_sessionId (uploadVideo_onSuccess now frames hotspots nsteps w0)
           = Some (currentSessionId (storage w0))"
    and "map_of (testSessions (storage (uploadVideo_onSuccess now frames hotspots nsteps w0)))
           (currentSessionId (storage w0)) =
           Some \<lparr>s_id = currentSessionId (storage w0), testName = ''CTRM Interface Test'',
                 userId = None, extractedFrames = frames, hotspotData = hotspots,
                 totalSteps = nsteps, currentStep = 1, isCompleted = False,
                 startTime = now, completedTime = None\<rparr>"
  by (simp_all add: uploadVideo_onSuccess_def createTestSession_def Let_def or_null_def
      AList.update_conv')

text \<open>
  C7, as the code has it.  A session is created with \<open>currentStep = 1\<close> and
  \<open>isCompleted = false\<close> whatever its number of steps.  When it is created from at least one
  selected frame, with \<open>totalSteps\<close> their count and at most one hotspot list per frame, every
  sequence of clicks keeps \<open>1 \<le> currentStep \<le> totalSteps + 1\<close> and
  \<open>isCompleted = (currentStep > totalSteps)\<close>.  When it is created from zero frames the
  bounds on \<open>currentStep\<close> hold as well, but the session is not completed and no click
  changes that.
\<close>

theorem session_invariant_after_clicks:
  assumes "nsteps = int (length frames)" and "length hotspots \<le> length frames"
    and "currentSessionId (storage w0) \<noteq> 0"
  shows "\<exists>s. session (handle_clicks cs (uploadVideo_onSuccess now frames hotspots nsteps w0))
               = Some s
      \<and> totalSteps s = nsteps
      \<and> 1 \<le> currentStep s \<and> currentStep s \<le> totalSteps s + 1
      \<and> (1 \<le> nsteps \<longrightarrow> session_invariant s)
      \<and> (nsteps = 0 \<longrightarrow> currentStep s = 1 \<and> \<not> isCompleted s)"
proof -
  let ?w = "uploadVideo_onSuccess now frames hotspots nsteps w0"
  let ?s = "\<lparr>s_id = currentSessionId (storage w0), testName = ''CTRM Interface Test'',
                 userId = None, extractedFrames = frames, hotspotData = hotspots,
                 totalSteps = nsteps, currentStep = 1, isCompleted = False,
                 startTime = now, completedTime = None\<rparr>"
  have "\<exists>s'. session (handle_clicks cs ?w) = Some s'
     \<and> totalSteps s' = totalSteps ?s
     \<and> 1 \<le> currentStep s' \<and> currentStep s' \<le> totalSteps ?s + 1
     \<and> (1 \<le> totalSteps ?s \<and> isCompleted s' = (currentStep s' > totalSteps ?s)
          \<or> totalSteps ?s = 0 \<and> currentStep s' = 1 \<and> \<not> isCompleted s')"
    by (rule handle_clicks_inv [OF onSuccess_session(1) assms(3) onSuccess_session(2)])
      (use assms in \<open>auto simp: Suc_le_eq\<close>)
  then show ?thesis
    by (auto simp: session_invariant_def)
qed

text \<open>
  The statement of the specification fails for a session created from zero frames: it is not completed,
  and \<open>isCompleted = (currentStep > totalSteps)\<close> does not hold for it.
\<close>

theorem zero_frames_not_completed:
  "totalSteps (the (session (uploadVideo_onSuccess 0 [] [] 0 empty_world))) = 0
   \<and> currentStep (the (session (uploadVideo_onSuccess 0 [] [] 0 empty_world))) = 1
   \<and> \<not> isCompleted (the (session (uploadVideo_onSuccess 0 [] [] 0 empty_world)))
   \<and> \<not> session_invariant (the (session (uploadVideo_onSuccess 0 [] [] 0 empty_world)))"
  by (simp add: uploadVideo_onSuccess_def createTestSession_def Let_def or_null_def
      empty_world_def MemStorage_new_def session_def getTestSession_def session_invariant_def)

text \<open>The invariant on the sample session after two correct clicks and a wrong one.\<close>

theorem session_invariant_after_clicks_witness:
  "(3::int) = int (length [''f1'', ''f2'', ''f3'']) \<and> length sample_hotspots \<le> 3
   \<and> currentSessionId (storage empty_world) \<noteq> 0
   \<and> (\<exists>s. session (handle_clicks [sample_click ''a'' True, sample_click ''b'' True,
                 sample_click ''b'' False] sample_world) = Some s
      \<and> totalSteps s = 3 \<and> session_invariant s)"
proof -
  have 1: "(3::int) = int (length [''f1'', ''f2'', ''f3''])" by simp
  have 2: "length sample_hotspots \<le> length [''f1'', ''f2'', ''f3'']"
    by (simp add: sample_hotspots_def)
  have 3: "currentSessionId (storage empty_world) \<noteq> 0"
    by (simp add: empty_world_def MemStorage_new_def)
  from session_invariant_after_clicks [OF 1 2 3,
      of "[sample_click ''a'' True, sample_click ''b'' True, sample_click ''b'' False]" 0]
  show ?thesis
    using 2 3 by (auto simp: sample_world_def)
qed

section \<open>Results: speech segmentation and the fallback grid\<close>

lemmas eval_defs = parse_audio_def audio_line_def audio_init_def newline_def
  parseFloat_def isDigit_def isNumChar_def digits_value_def digit_value_def Let_def

lemma length_fallback_segments: "length fallback_segments = 20"
  by (simp add: fallback_segments_def Let_def)

lemma toString_digit: "n < 10 \<Longrightarrow> toString n = [digit_char n]"
  by (simp add: toString.simps)

lemma toString_7: "toString 7 = ''7''"
  by (simp add: toString_digit digit_char_def)

text \<open>
  C2, as the code has it.  The fallback grid is used exactly when reading the audio
  analysis output throws, which is when the fallback message is logged; an output that is
  read is parsed, and its segment list is kept even when it is empty.  The grid has
  \<open>ceil(300 / 15) = 20\<close> segments, segment \<open>i\<close> being \<open>[15 i, 15 i + 2]\<close>, each 2 seconds
  long.
\<close>

theorem fallback_on_read_failure:
  "(CouldNotParseAudio \<in> set (snd (speech_segments audioFile))) = (audioFile = None)
   \<and> speech_segments None = (fallback_segments, [CouldNotParseAudio])
   \<and> speech_segments (Some audioData) = (parse_audio audioData, [])
   \<and> length fallback_segments = 20
   \<and> nat \<lceil>(300::real) / 15\<rceil> = 20
   \<and> fallback_segments
       = map (\<lambda>i. \<lparr>seg_start = 15 * real i, seg_end = 15 * real i + 2\<rparr>) [0..<20]
   \<and> map (\<lambda>s. seg_end s - seg_start s) fallback_segments = replicate 20 2"
proof -
  have n: "nat \<lceil>(300::real) / 15\<rceil> = 20" by simp
  have f: "fallback_segments
             = map (\<lambda>i. \<lparr>seg_start = 15 * real i, seg_end = 15 * real i + 2\<rparr>) [0..<20]"
    unfolding fallback_segments_def Let_def n by (simp add: mult.commute del: upt_rec_numeral)
  have "map (\<lambda>s. seg_end s - seg_start s) fallback_segments = map (\<lambda>i. 2) [0..<20]"
    unfolding f by (simp del: upt_rec_numeral)
  then have r: "map (\<lambda>s. seg_end s - seg_start s) fallback_segments = replicate 20 2"
    by (simp add: map_replicate_const del: upt_rec_numeral)
  show ?thesis
    using n f r by (simp add: speech_segments_def length_fallback_segments split: option.splits)
qed

text \<open>
  The statement of the specification fails when the audio analysis output is readable and holds no
  boundary (a recording without silence): the parsed list is empty, nothing is logged, no
  fallback segment is made, and the run answers with no frame at all.
\<close>

theorem empty_parse_no_fallback:
  "speech_segments (Some []) = ([], [])
   \<and> fst (upload_video sample_env sample_fs) = SmartOk [] 0 0"
proof -
  have 1: "speech_segments (Some []) = ([], [])"
    by (simp add: speech_segments_def eval_defs)
  have 2: "fst (upload_video sample_env sample_fs) = SmartOk [] 0 0"
    by (simp add: upload_video_def smart_mode_def sample_env_def sample_fs_def toString_7
        mkdir_frames_def mkdirSync_def write_files_def readFileSync_def 1 combinedEvents_def
        speech_events_def click_events_def extract_frames_def unlinkSync_def Let_def)
  show ?thesis using 1 2 by simp
qed

text \<open>
  C3, as the code has it.  On a silence-start at time \<open>t\<close> read while no silence is open,
  the segment \<open>[lastSpeechEnd, t]\<close> is emitted exactly when \<open>t - lastSpeechEnd > 3\<close>, and the
  silence is opened; a silence-start read while a silence is open is ignored.  On a
  silence-end at time \<open>t'\<close> read while a silence is open, \<open>lastSpeechEnd\<close> becomes \<open>t'\<close> and the
  silence is closed; a silence-end read while no silence is open is ignored.  For the lines
  silence_start 5, silence_end 6, silence_start 20 the result is \<open>[0, 5]\<close> then \<open>[6, 20]\<close>.
\<close>

theorem audio_line_transitions:
  "(silence_start_match line = Some m \<and> parseFloat m = Some t \<and> silenceStart st = None
      \<and> lastSpeechEnd st = Some l \<longrightarrow>
      audio_line line st =
        st\<lparr>speechSegments :=
             speechSegments st @ (if t - l > 3 then [\<lparr>seg_start = l, seg_end = t\<rparr>] else []),
           silenceStart := Some (Some t)\<rparr>)
   \<and> (silence_start_match line = Some m \<and> silenceStart st \<noteq> None \<longrightarrow> audio_line line st = st)
   \<and> (silence_end_match line = Some m \<and> silenceStart st \<noteq> None \<longrightarrow>
      audio_line line st = st\<lparr>lastSpeechEnd := parseFloat m, silenceStart := None\<rparr>)
   \<and> (silence_end_match line = Some m \<and> silenceStart st = None \<longrightarrow> audio_line line st = st)
   \<and> parse_audio sample_audio
       = [\<lparr>seg_start = 0, seg_end = 5\<rparr>, \<lparr>seg_start = 6, seg_end = 20\<rparr>]"
proof -
  have ex: "parse_audio sample_audio
              = [\<lparr>seg_start = 0, seg_end = 5\<rparr>, \<lparr>seg_start = 6, seg_end = 20\<rparr>]"
    by (simp add: sample_audio_def eval_defs)
  have 1: "silence_start_match line = Some m \<and> parseFloat m = Some t \<and> silenceStart st = None
      \<and> lastSpeechEnd st = Some l \<longrightarrow>
      audio_line line st =
        st\<lparr>speechSegments :=
             speechSegments st @ (if t - l > 3 then [\<lparr>seg_start = l, seg_end = t\<rparr>] else []),
           silenceStart := Some (Some t)\<rparr>"
    by (auto simp: silence_start_match_def audio_line_def Let_def split: if_splits)
  have 2: "silence_start_match line = Some m \<and> silenceStart st \<noteq> None \<longrightarrow> audio_line line st = st"
    by (auto simp: silence_start_match_def audio_line_def Let_def split: if_splits)
  have 3: "silence_end_match line = Some m \<and> silenceStart st \<noteq> None \<longrightarrow>
      audio_line line st = st\<lparr>lastSpeechEnd := parseFloat m, silenceStart := None\<rparr>"
    by (auto simp: silence_end_match_def audio_line_def Let_def split: if_splits)
  have 4: "silence_end_match line = Some m \<and> silenceStart st = None \<longrightarrow> audio_line line st = st"
    by (auto simp: silence_end_match_def audio_line_def Let_def split: if_splits)
  show ?thesis using 1 2 3 4 ex by blast
qed

text \<open>
  The statement of the specification fails on boundaries that do not alternate.  After a silence-start at
  5, a second silence-start at 20 emits nothing although \<open>20 - lastSpeechEnd = 20 > 3\<close>; a
  silence-end at 6 read first does not set \<open>lastSpeechEnd\<close>, so that a silence-start at 8
  then emits \<open>[0, 8]\<close>.
\<close>

theorem second_silence_start_ignored:
  "lastSpeechEnd (audio_line ''silence_start: 5'' audio_init) = Some 0
   \<and> (20::real) - 0 > 3
   \<and> speechSegments (audio_line ''silence_start: 20'' (audio_line ''silence_start: 5'' audio_init))
       = [\<lparr>seg_start = 0, seg_end = 5\<rparr>]
   \<and> lastSpeechEnd (audio_line ''silence_end: 6'' audio_init) = Some 0
   \<and> speechSegments (audio_line ''silence_start: 8'' (audio_line ''silence_end: 6'' audio_init))
       = [\<lparr>seg_start = 0, seg_end = 8\<rparr>]"
  by (simp add: eval_defs)

text \<open>The four transitions on concrete lines.\<close>

theorem audio_line_transitions_witness:
  "silence_start_match ''silence_start: 5'' = Some ''5'' \<and> parseFloat ''5'' = Some 5
   \<and> audio_line ''silence_start: 5'' audio_init
       = \<lparr>speechSegments = [\<lparr>seg_start = 0, seg_end = 5\<rparr>], silenceStart = Some (Some 5),
          lastSpeechEnd = Some 0\<rparr>
   \<and> silence_start_match ''silence_start: 20'' = Some ''20''
   \<and> audio_line ''silence_start: 20'' (audio_init\<lparr>silenceStart := Some (Some 5)\<rparr>)
       = audio_init\<lparr>silenceStart := Some (Some 5)\<rparr>
   \<and> silence_end_match ''silence_end: 6'' = Some ''6''
   \<and> audio_line ''silence_end: 6'' (audio_init\<lparr>silenceStart := Some (Some 5)\<rparr>)
       = audio_init\<lparr>lastSpeechEnd := Some 6\<rparr>
   \<and> audio_line ''silence_end: 6'' audio_init = audio_init"
proof -
  have a: "silence_start_match ''silence_start: 5'' = Some ''5''"
    by (simp add: silence_start_match_def isNumChar_def isDigit_def)
  have b: "parseFloat ''5'' = Some 5" "parseFloat ''6'' = Some 6"
    by (simp_all add: eval_defs)
  have c: "silence_start_match ''silence_start: 20'' = Some ''20''"
    by (simp add: silence_start_match_def isNumChar_def isDigit_def)
  have d: "silence_end_match ''silence_end: 6'' = Some ''6''"
    by (simp add: silence_end_match_def isNumChar_def isDigit_def)
  have i: "silenceStart audio_init = None" "lastSpeechEnd audio_init = Some 0"
    "silenceStart (audio_init\<lparr>silenceStart := Some (Some 5)\<rparr>) \<noteq> None"
    by (simp_all add: audio_init_def)
  show ?thesis
    using audio_line_transitions [of "''silence_start: 5''" "''5''" 5 audio_init 0]
      audio_line_transitions [of "''silence_start: 20''" "''20''" _
        "audio_init\<lparr>silenceStart := Some (Some 5)\<rparr>"]
      audio_line_transitions [of "''silence_end: 6''" "''6''" _
        "audio_init\<lparr>silenceStart := Some (Some 5)\<rparr>"]
      audio_line_transitions [of "''silence_end: 6''" "''6''" _ audio_init]
      a b c d i
    by (simp add: audio_init_def)
qed

section \<open>Results: frames\<close>

lemma fold_extract_frameData:
  "frameData (fold (extract_step d ok evs) is acc) =
     frameData acc @ map (\<lambda>i. smart_frame d i (evs ! i)) (filter ok is)"
  by (induction "is" arbitrary: acc) (simp_all add: extract_step_def Let_def)

lemma extract_frames_frameData:
  "frameData (extract_frames d ok evs fs) =
     map (\<lambda>i. smart_frame d i (evs ! i)) (filter ok [0..<min (length evs) 20])"
  by (simp add: extract_frames_def fold_extract_frameData)

lemma frame_event_smart_frame [simp]: "frame_event (smart_frame d i e) = e"
  by (simp add: frame_event_def smart_frame_def)

lemma selected_smart_frame:
  "selected (smart_frame d i e) = (ev_type e = click \<or> ev_confidence e > 0.8)"
  by (simp add: smart_frame_def)

lemma extract_frames_events:
  "map frame_event (frameData (extract_frames d ok evs fs)) =
     map (\<lambda>i. evs ! i) (filter ok [0..<min (length evs) 20])"
  by (simp add: extract_frames_frameData comp_def)

lemma extract_frames_length: "length (frameData (extract_frames d ok evs fs)) \<le> 20"
proof -
  have "length (filter ok [0..<min (length evs) 20]) \<le> length [0..<min (length evs) 20]"
    by (rule length_filter_le)
  then show ?thesis by (simp add: extract_frames_frameData)
qed

lemma filter_all_upt: "(\<forall>i<n. ok i) \<Longrightarrow> filter ok [0..<n] = [0..<n]"
  by (simp add: filter_id_conv)

lemma map_nth_upt_take: "n \<le> length xs \<Longrightarrow> map (\<lambda>i. xs ! i) [0..<n] = take n xs"
  by (rule nth_equalityI) auto

lemma extract_frames_all_ok:
  assumes "\<forall>i<20. ok i" "20 \<le> length evs"
  shows "map frame_event (frameData (extract_frames d ok evs fs)) = take 20 evs"
proof -
  have "min (length evs) 20 = 20" using assms(2) by simp
  then have "map frame_event (frameData (extract_frames d ok evs fs))
               = map (\<lambda>i. evs ! i) [0..<20]"
    using assms(1) by (simp add: extract_frames_events filter_all_upt)
  also have "\<dots> = take 20 evs"
    using assms(2) by (rule map_nth_upt_take)
  finally show ?thesis .
qed

lemma sorted_take_drop:
  assumes "sorted (map f xs)" "a \<in> set (take n xs)" "b \<in> set (drop n xs)"
  shows "f a \<le> f b"
proof -
  have "sorted (map f (take n xs) @ map f (drop n xs))"
    using assms(1) by (simp flip: map_append)
  then show ?thesis using assms(2,3) by (auto simp: sorted_append)
qed

lemma length_combinedEvents:
  "length (combinedEvents rnd segs cs) = length segs + length cs"
  by (simp add: combinedEvents_def speech_events_def click_events_def)

subsection \<open>The handler and the file system\<close>

lemma is_file_upd: "is_file fs p \<Longrightarrow> is_file (fs(q \<mapsto> File c)) p"
  by (simp add: is_file_def)

lemma write_files_is_file: "is_file fs p \<Longrightarrow> is_file (write_files d w fs) p"
  unfolding write_files_def
  by (induction w arbitrary: fs) (auto simp: is_file_upd split: prod.splits)

lemma write_files_dir: "write_files d w fs d = fs d"
  unfolding write_files_def
  by (induction w arbitrary: fs) (auto split: prod.splits)

lemma fold_extract_is_file:
  "is_file (files acc) p \<Longrightarrow> is_file (files (fold (extract_step d ok evs) is acc)) p"
  by (induction "is" arbitrary: acc) (simp_all add: extract_step_def Let_def is_file_upd)

lemma fold_extract_dir:
  "files (fold (extract_step d ok evs) is acc) d = files acc d"
  by (induction "is" arbitrary: acc) (simp_all add: extract_step_def Let_def)

lemma extract_frames_is_file: "is_file fs p \<Longrightarrow> is_file (files (extract_frames d ok evs fs)) p"
  by (simp add: extract_frames_def fold_extract_is_file)

lemma extract_frames_dir: "files (extract_frames d ok evs fs) d = fs d"
  by (simp add: extract_frames_def fold_extract_dir)

lemma unlinkSync_is_file: "is_file fs p \<Longrightarrow> unlinkSync fs p = Some (fs(p := None))"
  by (auto simp: is_file_def unlinkSync_def split: option.splits node.splits)

lemma unlinkSync_SomeD: "unlinkSync fs p = Some fs' \<Longrightarrow> fs' = fs(p := None) \<and> is_file fs p"
  by (auto simp: is_file_def unlinkSync_def split: option.splits node.splits)

lemma mkdirSync_SomeD:
  "mkdirSync fs parent p = Some fs' \<Longrightarrow>
   fs' = fs(p \<mapsto> Dir) \<and> fs p = None \<and> fs parent = Some Dir"
  by (auto simp: mkdirSync_def split: if_splits)

lemma is_file_mkdir_frames: "is_file fs p \<Longrightarrow> is_file (mkdir_frames fs) p"
  by (auto simp: is_file_def mkdir_frames_def split: option.splits node.splits)

lemma quick_mode_success:
  assumes "is_success (fst (quick_mode env d v fs2))" "fs2 d = Some Dir"
  shows "snd (quick_mode env d v fs2) v = None \<and> snd (quick_mode env d v fs2) d = Some Dir"
proof -
  let ?fs3 = "write_files d (map (\<lambda>name. (name, ''png'')) (quick_written env)) fs2"
  from assms(1) obtain fs4 where fs4: "unlinkSync ?fs3 v = Some fs4"
    and r: "snd (quick_mode env d v fs2) = fs4"
    by (auto simp: quick_mode_def is_success_def Let_def split: option.splits if_splits)
  have "?fs3 d = Some Dir" using assms(2) by (simp add: write_files_dir)
  then show ?thesis
    using unlinkSync_SomeD [OF fs4] r by (auto simp: is_file_def)
qed

lemma smart_mode_success:
  assumes "is_success (fst (smart_mode env d v fs2))" "fs2 d = Some Dir"
  shows "snd (smart_mode env d v fs2) v = None \<and> snd (smart_mode env d v fs2) d = Some Dir"
proof -
  let ?fs3 = "write_files d (analysis_written env) fs2"
  let ?ex = "extract_frames d (extract_ok env)
       (combinedEvents (random env)
          (fst (speech_segments (readFileSync ?fs3 (d @ ''/audio_analysis.txt''))))
          (clickEvents env)) ?fs3"
  from assms(1) obtain fs5 where fs5: "unlinkSync (files ?ex) v = Some fs5"
    and r: "snd (smart_mode env d v fs2) = fs5"
    by (auto simp: smart_mode_def is_success_def Let_def split: option.splits)
  have "files ?ex d = Some Dir" using assms(2) by (simp add: write_files_dir extract_frames_dir)
  then show ?thesis
    using unlinkSync_SomeD [OF fs5] r by (auto simp: is_file_def)
qed

lemma smart_mode_is_success:
  assumes "is_file fs2 v"
  shows "is_success (fst (smart_mode env d v fs2))"
proof -
  let ?fs3 = "write_files d (analysis_written env) fs2"
  have 3: "is_file ?fs3 v" using assms by (rule write_files_is_file)
  show ?thesis
    by (simp add: smart_mode_def Let_def unlinkSync_is_file [OF extract_frames_is_file [OF 3]]
        is_success_def)
qed

lemma quick_mode_is_success:
  assumes "is_file fs2 v" "\<not> quick_failed env"
  shows "is_success (fst (quick_mode env d v fs2))"
proof -
  let ?fs3 = "write_files d (map (\<lambda>name. (name, ''png'')) (quick_written env)) fs2"
  have 3: "is_file ?fs3 v" using assms(1) by (rule write_files_is_file)
  show ?thesis
    using assms(2) by (simp add: quick_mode_def Let_def unlinkSync_is_file [OF 3] is_success_def)
qed

lemma smart_mode_frames:
  "\<exists>evs fs'. response_frames (fst (smart_mode env d v fs2)) = []
      \<or> response_frames (fst (smart_mode env d v fs2))
          = frameData (extract_frames d (extract_ok env) evs fs')"
  by (auto simp: smart_mode_def Let_def response_frames_def split: option.splits)

lemma quick_mode_frames:
  "\<exists>l. response_frames (fst (quick_mode env d v fs2)) = []
      \<or> response_frames (fst (quick_mode env d v fs2)) = quick_frames d l"
  by (auto simp: quick_mode_def Let_def response_frames_def split: option.splits)

lemma upload_video_cases:
  "(req_file env = None \<and> upload_video env fs = (BadRequest, fs))
   \<or> (\<exists>v. req_file env = Some v
         \<and> mkdirSync (mkdir_frames fs) ''frames'' (''frames/'' @ toString (date_now env)) = None
         \<and> upload_video env fs = (ServerError, mkdir_frames fs))
   \<or> (\<exists>v fs2. req_file env = Some v
         \<and> mkdirSync (mkdir_frames fs) ''frames'' (''frames/'' @ toString (date_now env))
             = Some fs2
         \<and> quickMode env
         \<and> upload_video env fs = quick_mode env (''frames/'' @ toString (date_now env)) v fs2)
   \<or> (\<exists>v fs2. req_file env = Some v
         \<and> mkdirSync (mkdir_frames fs) ''frames'' (''frames/'' @ toString (date_now env))
             = Some fs2
         \<and> \<not> quickMode env
         \<and> upload_video env fs = smart_mode env (''frames/'' @ toString (date_now env)) v fs2)"
  by (simp add: upload_video_def Let_def del: append.simps split: option.splits)

lemma upload_video_is_success:
  assumes v: "req_file env = Some v" and f: "is_file fs v"
    and m: "mkdirSync (mkdir_frames fs) ''frames'' (''frames/'' @ toString (date_now env)) \<noteq> None"
    and q: "quickMode env \<longrightarrow> \<not> quick_failed env"
  shows "is_success (fst (upload_video env fs))"
proof -
  define d where "d = ''frames/'' @ toString (date_now env)"
  from m obtain fs2 where fs2: "mkdirSync (mkdir_frames fs) ''frames'' d = Some fs2"
    by (auto simp: d_def)
  have 1: "is_file (mkdir_frames fs) v" using f by (rule is_file_mkdir_frames)
  have "v \<noteq> d" using mkdirSync_SomeD [OF fs2] 1 by (auto simp: is_file_def)
  then have 2: "is_file fs2 v" using mkdirSync_SomeD [OF fs2] 1 by (simp add: is_file_def)
  from upload_video_cases [of env fs] v fs2
  have "quickMode env \<and> upload_video env fs = quick_mode env d v fs2
      \<or> \<not> quickMode env \<and> upload_video env fs = smart_mode env d v fs2"
    by (auto simp: d_def)
  then show ?thesis
    using smart_mode_is_success [OF 2] quick_mode_is_success [OF 2] q by auto
qed

lemma upload_video_success:
  assumes "is_success (fst (upload_video env fs))"
  shows "\<exists>v. req_file env = Some v \<and> snd (upload_video env fs) v = None
          \<and> snd (upload_video env fs) (''frames/'' @ toString (date_now env)) = Some Dir"
proof -
  define d where "d = ''frames/'' @ toString (date_now env)"
  from upload_video_cases [of env fs] assms
  obtain v fs2 where v: "req_file env = Some v"
    and fs2: "mkdirSync (mkdir_frames fs) ''frames'' d = Some fs2"
    and u: "quickMode env \<and> upload_video env fs = quick_mode env d v fs2
          \<or> \<not> quickMode env \<and> upload_video env fs = smart_mode env d v fs2"
    unfolding d_def by (auto simp: is_success_def)
  have d2: "fs2 d = Some Dir" using mkdirSync_SomeD [OF fs2] by simp
  from u show ?thesis
  proof
    assume "quickMode env \<and> upload_video env fs = quick_mode env d v fs2"
    then show ?thesis using quick_mode_success [of env d v fs2] assms d2 v
      by (simp add: d_def)
  next
    assume "\<not> quickMode env \<and> upload_video env fs = smart_mode env d v fs2"
    then show ?thesis using smart_mode_success [of env d v fs2] assms d2 v
      by (simp add: d_def)
  qed
qed

lemma upload_video_smart_le:
  assumes "\<not> quickMode env"
  shows "length (response_frames (fst (upload_video env fs))) \<le> 20"
proof -
  from upload_video_cases [of env fs] assms
  consider "response_frames (fst (upload_video env fs)) = []"
    | d v fs2 where "upload_video env fs = smart_mode env d v fs2"
    by (auto simp: response_frames_def)
  then show ?thesis
  proof cases
    case 1
    then show ?thesis by simp
  next
    case 2
    then show ?thesis
      using smart_mode_frames [of env d v fs2] extract_frames_length by auto
  qed
qed

lemma smart_mode_response:
  assumes "is_file fs2 v"
  shows "response_frames (fst (smart_mode env d v fs2)) =
           frameData (extract_frames d (extract_ok env) (smart_events env d fs2)
                        (write_files d (analysis_written env) fs2))"
proof -
  let ?fs3 = "write_files d (analysis_written env) fs2"
  have 3: "is_file ?fs3 v" using assms by (rule write_files_is_file)
  show ?thesis
    by (simp add: smart_mode_def smart_events_def Let_def response_frames_def
        unlinkSync_is_file [OF extract_frames_is_file [OF 3]])
qed

lemma upload_video_smart_response:
  assumes v: "req_file env = Some v" and q: "\<not> quickMode env" and f: "is_file fs v"
    and m: "mkdirSync (mkdir_frames fs) ''frames'' (''frames/'' @ toString (date_now env))
              = Some fs2"
  shows "response_frames (fst (upload_video env fs)) =
           frameData (extract_frames (''frames/'' @ toString (date_now env)) (extract_ok env)
                        (smart_events env (''frames/'' @ toString (date_now env)) fs2)
                        (write_files (''frames/'' @ toString (date_now env))
                           (analysis_written env) fs2))"
proof -
  define d where "d = ''frames/'' @ toString (date_now env)"
  have fs2: "mkdirSync (mkdir_frames fs) ''frames'' d = Some fs2"
    using m by (simp add: d_def)
  have 1: "is_file (mkdir_frames fs) v" using f by (rule is_file_mkdir_frames)
  have "v \<noteq> d" using mkdirSync_SomeD [OF fs2] 1 by (auto simp: is_file_def)
  then have 2: "is_file fs2 v" using mkdirSync_SomeD [OF fs2] 1 by (simp add: is_file_def)
  from upload_video_cases [of env fs] v q fs2
  have "upload_video env fs = smart_mode env d v fs2"
    by (auto simp: d_def)
  then show ?thesis
    using smart_mode_response [OF 2, of env d] by (simp add: d_def)
qed

lemma sample_mkdir:
  "mkdirSync (mkdir_frames sample_fs) ''frames'' (''frames/'' @ toString 7) \<noteq> None"
  by (simp add: toString_7 mkdirSync_def mkdir_frames_def sample_fs_def)

lemma sample_is_file: "is_file sample_fs ''uploads/v1''"
  by (simp add: is_file_def sample_fs_def)

subsection \<open>The cap of 20 frames\<close>

text \<open>
  C4.  Whatever the list of candidate events and the outcome of the extractions, smart
  mode emits at most 20 frame descriptors.  With more than 20 candidates and no extraction
  failure it emits exactly 20, those of the first 20 events of the list; the list is
  sorted by timestamp, so no emitted event is later than a dropped one.  This holds of the
  extraction loop on any list, and of the handler's smart run: when the upload is a file
  and the output directory can be created, the frames of the response are those the loop
  makes from the combined events of the run, which with more than 20 candidates and no
  failure are exactly the first 20 of them in timestamp order.  Dropping is not an error:
  such a run answers with success, whatever the number of candidates.
\<close>

theorem smart_frames_capped:
  "length (frameData (extract_frames d ok evs fs)) \<le> 20
   \<and> ((\<forall>i<20. ok i) \<and> 20 < length evs \<longrightarrow>
        length (frameData (extract_frames d ok evs fs)) = 20
        \<and> map frame_event (frameData (extract_frames d ok evs fs)) = take 20 evs)
   \<and> sorted (map ev_timestamp (combinedEvents rnd segs cs))
   \<and> (\<forall>a \<in> set (take 20 (combinedEvents rnd segs cs)).
        \<forall>b \<in> set (drop 20 (combinedEvents rnd segs cs)). ev_timestamp a \<le> ev_timestamp b)
   \<and> (\<not> quickMode env \<longrightarrow> length (response_frames (fst (upload_video env fs'))) \<le> 20)
   \<and> (req_file env = Some v \<and> \<not> quickMode env \<and> is_file fs' v
        \<and> mkdirSync (mkdir_frames fs') ''frames'' (''frames/'' @ toString (date_now env)) \<noteq> None
       \<longrightarrow> is_success (fst (upload_video env fs')))
   \<and> (req_file env = Some v \<and> \<not> quickMode env \<and> is_file fs' v
        \<and> mkdirSync (mkdir_frames fs') ''frames'' (''frames/'' @ toString (date_now env))
            = Some fs2
       \<longrightarrow> response_frames (fst (upload_video env fs'))
             = frameData (extract_frames (''frames/'' @ toString (date_now env)) (extract_ok env)
                            (smart_events env (''frames/'' @ toString (date_now env)) fs2)
                            (write_files (''frames/'' @ toString (date_now env))
                               (analysis_written env) fs2))
           \<and> sorted (map ev_timestamp
                        (smart_events env (''frames/'' @ toString (date_now env)) fs2))
           \<and> ((\<forall>i<20. extract_ok env i)
                \<and> 20 < length (smart_events env (''frames/'' @ toString (date_now env)) fs2)
               \<longrightarrow> length (response_frames (fst (upload_video env fs'))) = 20
                 \<and> map frame_event (response_frames (fst (upload_video env fs')))
                     = take 20 (smart_events env (''frames/'' @ toString (date_now env)) fs2)))"
proof -
  have a: "length (frameData (extract_frames d ok evs fs)) \<le> 20"
    by (rule extract_frames_length)
  have b: "(\<forall>i<20. ok i) \<and> 20 < length evs \<longrightarrow>
        length (frameData (extract_frames d ok evs fs)) = 20
        \<and> map frame_event (frameData (extract_frames d ok evs fs)) = take 20 evs"
    for d ok evs fs
  proof
    assume h: "(\<forall>i<20. ok i) \<and> 20 < length evs"
    then have m: "map frame_event (frameData (extract_frames d ok evs fs)) = take 20 evs"
      by (intro extract_frames_all_ok) auto
    from m have "length (frameData (extract_frames d ok evs fs)) = length (take 20 evs)"
      by (metis length_map)
    with h m show "length (frameData (extract_frames d ok evs fs)) = 20
        \<and> map frame_event (frameData (extract_frames d ok evs fs)) = take 20 evs"
      by simp
  qed
  have c: "sorted (map ev_timestamp (combinedEvents rnd segs cs))"
    by (simp add: combinedEvents_def)
  have e: "\<forall>a \<in> set (take 20 (combinedEvents rnd segs cs)).
        \<forall>b \<in> set (drop 20 (combinedEvents rnd segs cs)). ev_timestamp a \<le> ev_timestamp b"
    using sorted_take_drop [OF c] by blast
  have f: "\<not> quickMode env \<longrightarrow> length (response_frames (fst (upload_video env fs'))) \<le> 20"
    using upload_video_smart_le by blast
  have g: "req_file env = Some v \<and> \<not> quickMode env \<and> is_file fs' v
        \<and> mkdirSync (mkdir_frames fs') ''frames'' (''frames/'' @ toString (date_now env)) \<noteq> None
       \<longrightarrow> is_success (fst (upload_video env fs'))"
    using upload_video_is_success [of env v fs'] by blast
  define dir where "dir = ''frames/'' @ toString (date_now env)"
  have h: "req_file env = Some v \<and> \<not> quickMode env \<and> is_file fs' v
        \<and> mkdirSync (mkdir_frames fs') ''frames'' dir = Some fs2
       \<longrightarrow> response_frames (fst (upload_video env fs'))
             = frameData (extract_frames dir (extract_ok env) (smart_events env dir fs2)
                            (write_files dir (analysis_written env) fs2))
           \<and> sorted (map ev_timestamp (smart_events env dir fs2))
           \<and> ((\<forall>i<20. extract_ok env i) \<and> 20 < length (smart_events env dir fs2)
               \<longrightarrow> length (response_frames (fst (upload_video env fs'))) = 20
                 \<and> map frame_event (response_frames (fst (upload_video env fs')))
                     = take 20 (smart_events env dir fs2))"
  proof
    assume p: "req_file env = Some v \<and> \<not> quickMode env \<and> is_file fs' v
        \<and> mkdirSync (mkdir_frames fs') ''frames'' dir = Some fs2"
    then have r: "response_frames (fst (upload_video env fs'))
             = frameData (extract_frames dir (extract_ok env) (smart_events env dir fs2)
                            (write_files dir (analysis_written env) fs2))"
      using upload_video_smart_response [of env v fs' fs2] unfolding dir_def by blast
    have s: "sorted (map ev_timestamp (smart_events env dir fs2))"
      by (simp add: smart_events_def combinedEvents_def)
    show "response_frames (fst (upload_video env fs'))
             = frameData (extract_frames dir (extract_ok env) (smart_events env dir fs2)
                            (write_files dir (analysis_written env) fs2))
           \<and> sorted (map ev_timestamp (smart_events env dir fs2))
           \<and> ((\<forall>i<20. extract_ok env i) \<and> 20 < length (smart_events env dir fs2)
               \<longrightarrow> length (response_frames (fst (upload_video env fs'))) = 20
                 \<and> map frame_event (response_frames (fst (upload_video env fs')))
                     = take 20 (smart_events env dir fs2))"
      using r s b [of "extract_ok env" "smart_events env dir fs2" dir
          "write_files dir (analysis_written env) fs2"]
      by simp
  qed
  show ?thesis
    by (intro conjI) (rule a, rule b, rule c, rule e, rule f, rule g, rule h [unfolded dir_def])
qed

lemma sample_mkdir_eq:
  "mkdirSync (mkdir_frames sample_fs) ''frames'' (''frames/'' @ toString 7)
     = Some (sample_fs(''frames'' \<mapsto> Dir, ''frames/7'' \<mapsto> Dir))"
  by (simp add: toString_7 mkdirSync_def mkdir_frames_def sample_fs_def)

lemma sample_smart_events35:
  "smart_events sample_env35 ''frames/7'' (sample_fs(''frames'' \<mapsto> Dir, ''frames/7'' \<mapsto> Dir))
     = combinedEvents (\<lambda>k. 1 / 2) fallback_segments sample_clicks"
  by (simp add: smart_events_def sample_env35_def write_files_def readFileSync_def sample_fs_def
      speech_segments_def)

text \<open>
  35 candidates, the 20 segments of the fallback grid and 15 click events: the run
  succeeds and its response holds exactly 20 descriptors, those of the first 20 of the 35
  events in timestamp order.
\<close>

theorem smart_frames_capped_witness:
  "length (combinedEvents (\<lambda>k. 1 / 2) fallback_segments sample_clicks) = 35
   \<and> length (frameData (extract_frames ''frames/7'' (\<lambda>i. True)
        (combinedEvents (\<lambda>k. 1 / 2) fallback_segments sample_clicks) sample_fs)) = 20
   \<and> map frame_event (frameData (extract_frames ''frames/7'' (\<lambda>i. True)
        (combinedEvents (\<lambda>k. 1 / 2) fallback_segments sample_clicks) sample_fs))
      = take 20 (combinedEvents (\<lambda>k. 1 / 2) fallback_segments sample_clicks)
   \<and> is_success (fst (upload_video sample_env35 sample_fs))
   \<and> length (response_frames (fst (upload_video sample_env35 sample_fs))) = 20
   \<and> map frame_event (response_frames (fst (upload_video sample_env35 sample_fs)))
      = take 20 (combinedEvents (\<lambda>k. 1 / 2) fallback_segments sample_clicks)"
proof -
  let ?evs = "combinedEvents (\<lambda>k. 1 / 2) fallback_segments sample_clicks"
  let ?fs2 = "sample_fs(''frames'' \<mapsto> Dir, ''frames/7'' \<mapsto> Dir)"
  let ?dir = "''frames/'' @ toString (date_now sample_env35)"
  note th = smart_frames_capped [of "''frames/7''" "\<lambda>i. True" ?evs sample_fs
        "\<lambda>k. 1 / 2" fallback_segments sample_clicks sample_env35 sample_fs "''uploads/v1''" ?fs2]
  have l: "length ?evs = 35"
    by (simp add: length_combinedEvents length_fallback_segments sample_clicks_def)
  have d: "date_now sample_env35 = 7" by (simp add: sample_env35_def)
  have ev: "smart_events sample_env35 ?dir ?fs2 = ?evs"
    using sample_smart_events35 by (simp add: toString_7 d)
  have h1: "req_file sample_env35 = Some ''uploads/v1'' \<and> \<not> quickMode sample_env35
        \<and> is_file sample_fs ''uploads/v1''
        \<and> mkdirSync (mkdir_frames sample_fs) ''frames'' ?dir = Some ?fs2"
    using sample_mkdir_eq sample_is_file by (simp add: sample_env35_def del: append.simps)
  then have h1': "req_file sample_env35 = Some ''uploads/v1'' \<and> \<not> quickMode sample_env35
        \<and> is_file sample_fs ''uploads/v1''
        \<and> mkdirSync (mkdir_frames sample_fs) ''frames'' ?dir \<noteq> None"
    by simp
  have h2: "(\<forall>i<20. extract_ok sample_env35 i) \<and> 20 < length (smart_events sample_env35 ?dir ?fs2)"
    unfolding ev l by (simp add: sample_env35_def)
  have A: "length (response_frames (fst (upload_video sample_env35 sample_fs))) = 20
     \<and> map frame_event (response_frames (fst (upload_video sample_env35 sample_fs)))
        = take 20 (smart_events sample_env35 ?dir ?fs2)"
    using th h1 h2 by blast
  have B: "is_success (fst (upload_video sample_env35 sample_fs))"
    using th h1' by blast
  have h3: "(\<forall>i<20. (\<lambda>i. True) i) \<and> 20 < length ?evs"
    unfolding l by simp
  have C: "length (frameData (extract_frames ''frames/7'' (\<lambda>i. True) ?evs sample_fs)) = 20
     \<and> map frame_event (frameData (extract_frames ''frames/7'' (\<lambda>i. True) ?evs sample_fs))
        = take 20 ?evs"
    using th h3 by blast
  show ?thesis
    using A B C l unfolding ev by blast
qed

subsection \<open>Auto-selection\<close>

lemma quick_frames_selected: "f \<in> set (quick_frames d l) \<Longrightarrow> selected f"
  by (auto simp: quick_frames_def)

lemma extract_frames_selected:
  "f \<in> set (frameData (extract_frames d ok evs fs)) \<Longrightarrow>
   selected f = (f_type f = click \<or> cd_confidence (clickData f) > 0.8)"
  by (auto simp: extract_frames_frameData smart_frame_def)

text \<open>
  C5.  A descriptor made in smart mode carries its source event (type, timestamp,
  confidence, position), and its \<open>selected\<close> flag is true exactly when that event's type is
  click or its confidence is greater than 0.8; every descriptor made in quick mode is
  selected.  Both hold for the frames of the handler's response.
\<close>

theorem selected_rule:
  "map selected (frameData (extract_frames d ok evs fs))
     = map (\<lambda>e. ev_type e = click \<or> ev_confidence e > 0.8)
         (map frame_event (frameData (extract_frames d ok evs fs)))
   \<and> map frame_event (frameData (extract_frames d ok evs fs))
       = map (\<lambda>i. evs ! i) (filter ok [0..<min (length evs) 20])
   \<and> map selected (quick_frames d listing) = replicate (length (quick_frames d listing)) True
   \<and> (\<not> quickMode env \<longrightarrow>
        (\<forall>f \<in> set (response_frames (fst (upload_video env fs'))).
           selected f = (f_type f = click \<or> cd_confidence (clickData f) > 0.8)))
   \<and> (quickMode env \<longrightarrow>
        (\<forall>f \<in> set (response_frames (fst (upload_video env fs'))). selected f))"
proof -
  have a: "map selected (frameData (extract_frames d ok evs fs))
     = map (\<lambda>e. ev_type e = click \<or> ev_confidence e > 0.8)
         (map frame_event (frameData (extract_frames d ok evs fs)))"
    by (simp add: extract_frames_frameData comp_def selected_smart_frame)
  have b: "map frame_event (frameData (extract_frames d ok evs fs))
       = map (\<lambda>i. evs ! i) (filter ok [0..<min (length evs) 20])"
    by (rule extract_frames_events)
  have c: "map selected (quick_frames d listing) = replicate (length (quick_frames d listing)) True"
    by (rule nth_equalityI) (auto intro: quick_frames_selected nth_mem)
  have s: "\<not> quickMode env \<longrightarrow>
        (\<forall>f \<in> set (response_frames (fst (upload_video env fs'))).
           selected f = (f_type f = click \<or> cd_confidence (clickData f) > 0.8))"
  proof (intro impI ballI)
    fix f
    assume q: "\<not> quickMode env" and f: "f \<in> set (response_frames (fst (upload_video env fs')))"
    from upload_video_cases [of env fs'] q f
    obtain d' v fs2 where "upload_video env fs' = smart_mode env d' v fs2"
      by (auto simp: response_frames_def)
    with f smart_mode_frames [of env d' v fs2]
    obtain evs' fs3 where "f \<in> set (frameData (extract_frames d' (extract_ok env) evs' fs3))"
      by auto
    then show "selected f = (f_type f = click \<or> cd_confidence (clickData f) > 0.8)"
      by (rule extract_frames_selected)
  qed
  have k: "quickMode env \<longrightarrow>
        (\<forall>f \<in> set (response_frames (fst (upload_video env fs'))). selected f)"
  proof (intro impI ballI)
    fix f
    assume q: "quickMode env" and f: "f \<in> set (response_frames (fst (upload_video env fs')))"
    from upload_video_cases [of env fs'] q f
    obtain d' v fs2 where "upload_video env fs' = quick_mode env d' v fs2"
      by (auto simp: response_frames_def)
    with f quick_mode_frames [of env d' v fs2]
    obtain l where "f \<in> set (quick_frames d' l)"
      by auto
    then show "selected f" by (rule quick_frames_selected)
  qed
  show ?thesis using a b c s k by blast
qed

text \<open>
  A smart run with two speech events (confidence 0.7) around a click event of confidence
  0.5: only the click is selected.  A quick run with two images: both are selected.
\<close>

theorem selected_rule_witness:
  "\<not> quickMode sample_env_mixed
   \<and> map (\<lambda>f. (filename f, selected f))
        (response_frames (fst (upload_video sample_env_mixed sample_fs)))
      = [(''speech_000.png'', False), (''click_001.png'', True), (''speech_002.png'', False)]
   \<and> list_all (\<lambda>f. selected f = (f_type f = click \<or> cd_confidence (clickData f) > 0.8))
        (response_frames (fst (upload_video sample_env_mixed sample_fs)))
   \<and> quickMode sample_quick_env
   \<and> map (\<lambda>f. (filename f, selected f))
        (response_frames (fst (upload_video sample_quick_env sample_fs)))
      = [(''quick_001.png'', True), (''quick_002.png'', True)]
   \<and> list_all selected (response_frames (fst (upload_video sample_quick_env sample_fs)))"
proof -
  have q: "\<not> quickMode sample_env_mixed" "quickMode sample_quick_env"
    by (simp_all add: sample_env_mixed_def sample_quick_env_def)
  have m: "map (\<lambda>f. (filename f, selected f))
        (response_frames (fst (upload_video sample_env_mixed sample_fs)))
      = [(''speech_000.png'', False), (''click_001.png'', True), (''speech_002.png'', False)]"
    by code_simp
  have k: "map (\<lambda>f. (filename f, selected f))
        (response_frames (fst (upload_video sample_quick_env sample_fs)))
      = [(''quick_001.png'', True), (''quick_002.png'', True)]"
    by code_simp
  show ?thesis
    using selected_rule [where env = sample_env_mixed and fs' = sample_fs]
      selected_rule [where env = sample_quick_env and fs' = sample_fs] q m k
    unfolding list_all_iff by blast
qed

section \<open>Results: speech events\<close>

lemma speech_events_nth:
  "j < length segs \<Longrightarrow>
   speech_events rnd segs ! j =
     \<lparr>ev_timestamp = seg_start (segs ! j) + (seg_end (segs ! j) - seg_start (segs ! j)) / 2,
      ev_type = speech, ev_confidence = 0.7, ev_reason = ''Speech detected'',
      ev_x = 400 + rnd (2 * j) * 200, ev_y = 300 + rnd (2 * j + 1) * 200\<rparr>"
  by (simp add: speech_events_def nth_enumerate_eq)

lemma length_speech_events [simp]: "length (speech_events rnd segs) = length segs"
  by (simp add: speech_events_def)

lemma speech_events_type: "e \<in> set (speech_events rnd segs) \<Longrightarrow> ev_type e = speech"
  by (auto simp: speech_events_def)

lemma click_events_type: "e \<in> set (click_events cs) \<Longrightarrow> ev_type e = click"
  by (auto simp: click_events_def)

lemma filter_speech_combined:
  "mset (filter (\<lambda>e. ev_type e = speech) (combinedEvents rnd segs cs))
     = mset (speech_events rnd segs)"
proof -
  have 1: "filter_mset (\<lambda>e. ev_type e = speech) (mset (speech_events rnd segs))
             = mset (speech_events rnd segs)"
    by (rule filter_mset_cong [where g = "\<lambda>_. True", simplified])
       (auto dest: speech_events_type)
  have 2: "filter_mset (\<lambda>e. ev_type e = speech) (mset (click_events cs)) = {#}"
    by (auto dest: click_events_type)
  have "mset (filter (\<lambda>e. ev_type e = speech) (combinedEvents rnd segs cs))
      = filter_mset (\<lambda>e. ev_type e = speech) (mset (speech_events rnd segs))
        + filter_mset (\<lambda>e. ev_type e = speech) (mset (click_events cs))"
    by (simp only: combinedEvents_def mset_filter mset_sort mset_append filter_union_mset)
  then show ?thesis
    by (simp only: 1 2 add_0_right)
qed

text \<open>
  C8, as the code has it.  Each speech segment becomes exactly one candidate event of type
  speech, timestamped at the segment's midpoint, with confidence 0.7; in the combined list
  the speech events are these and no others.  The position is not a constant: the \<open>j\<close>-th
  event takes \<open>x = 400 + 200 r\<close> and \<open>y = 300 + 200 r'\<close> for two fresh values \<open>r\<close>, \<open>r'\<close> of
  the random source, so that \<open>400 \<le> x < 600\<close> and \<open>300 \<le> y < 500\<close> when the source yields
  values in \<open>[0, 1)\<close>.
\<close>

theorem speech_events_midpoint:
  "length (speech_events rnd segs) = length segs
   \<and> map ev_timestamp (speech_events rnd segs) = map (\<lambda>s. (seg_start s + seg_end s) / 2) segs
   \<and> map ev_confidence (speech_events rnd segs) = replicate (length segs) 0.7
   \<and> map ev_type (speech_events rnd segs) = replicate (length segs) speech
   \<and> map ev_x (speech_events rnd segs) = map (\<lambda>j. 400 + rnd (2 * j) * 200) [0..<length segs]
   \<and> map ev_y (speech_events rnd segs)
       = map (\<lambda>j. 300 + rnd (2 * j + 1) * 200) [0..<length segs]
   \<and> ((\<forall>k. 0 \<le> rnd k \<and> rnd k < 1) \<longrightarrow>
        (\<forall>e \<in> set (speech_events rnd segs).
           400 \<le> ev_x e \<and> ev_x e < 600 \<and> 300 \<le> ev_y e \<and> ev_y e < 500))
   \<and> mset (filter (\<lambda>e. ev_type e = speech) (combinedEvents rnd segs cs))
       = mset (speech_events rnd segs)"
proof -
  have t: "map ev_timestamp (speech_events rnd segs)
             = map (\<lambda>s. (seg_start s + seg_end s) / 2) segs"
    by (rule nth_equalityI) (simp_all add: speech_events_nth field_simps)
  have c: "map ev_confidence (speech_events rnd segs) = replicate (length segs) 0.7"
    by (rule nth_equalityI) (simp_all add: speech_events_nth)
  have y: "map ev_type (speech_events rnd segs) = replicate (length segs) speech"
    by (rule nth_equalityI) (simp_all add: speech_events_nth)
  have x1: "map ev_x (speech_events rnd segs)
              = map (\<lambda>j. 400 + rnd (2 * j) * 200) [0..<length segs]"
    by (rule nth_equalityI) (simp_all add: speech_events_nth)
  have x2: "map ev_y (speech_events rnd segs)
              = map (\<lambda>j. 300 + rnd (2 * j + 1) * 200) [0..<length segs]"
    by (rule nth_equalityI) (simp_all add: speech_events_nth)
  have r: "(\<forall>k. 0 \<le> rnd k \<and> rnd k < 1) \<longrightarrow>
        (\<forall>e \<in> set (speech_events rnd segs).
           400 \<le> ev_x e \<and> ev_x e < 600 \<and> 300 \<le> ev_y e \<and> ev_y e < 500)"
  proof (intro impI ballI)
    fix e
    assume h: "\<forall>k. 0 \<le> rnd k \<and> rnd k < 1" and e: "e \<in> set (speech_events rnd segs)"
    from e obtain j where j: "j < length segs" "e = speech_events rnd segs ! j"
      by (auto simp: in_set_conv_nth)
    have "0 \<le> rnd (2 * j) \<and> rnd (2 * j) < 1" "0 \<le> rnd (2 * j + 1) \<and> rnd (2 * j + 1) < 1"
      using h by blast+
    then show "400 \<le> ev_x e \<and> ev_x e < 600 \<and> 300 \<le> ev_y e \<and> ev_y e < 500"
      using j by (simp add: speech_events_nth)
  qed
  show ?thesis
    using t c y x1 x2 r filter_speech_combined [of rnd segs cs] by simp
qed

text \<open>
  The statement of the specification fails: within one run two speech events get different positions,
  and the same segment gets different positions in runs with different random values.
\<close>

theorem speech_positions_vary:
  "map ev_x (speech_events (\<lambda>k. real k / 10)
       [\<lparr>seg_start = 0, seg_end = 5\<rparr>, \<lparr>seg_start = 6, seg_end = 20\<rparr>]) = [400, 440]
   \<and> map ev_x (speech_events (\<lambda>k. 0) [\<lparr>seg_start = 0, seg_end = 5\<rparr>]) = [400]
   \<and> map ev_x (speech_events (\<lambda>k. 1 / 2) [\<lparr>seg_start = 0, seg_end = 5\<rparr>]) = [500]"
  by (simp add: speech_events_def enumerate_eq_zip)

text \<open>The two sample segments with a source that always yields one half.\<close>

theorem speech_events_midpoint_witness:
  "(\<forall>k::nat. (0::real) \<le> 1 / 2 \<and> (1::real) / 2 < 1)
   \<and> map ev_timestamp (speech_events (\<lambda>k. 1 / 2)
          [\<lparr>seg_start = 0, seg_end = 5\<rparr>, \<lparr>seg_start = 6, seg_end = 20\<rparr>]) = [5 / 2, 13]
   \<and> list_all (\<lambda>e. 400 \<le> ev_x e \<and> ev_x e < 600 \<and> 300 \<le> ev_y e \<and> ev_y e < 500)
        (speech_events (\<lambda>k. 1 / 2)
          [\<lparr>seg_start = 0, seg_end = 5\<rparr>, \<lparr>seg_start = 6, seg_end = 20\<rparr>])"
  using speech_events_midpoint [of "\<lambda>k. 1 / 2"
      "[\<lparr>seg_start = 0, seg_end = 5\<rparr>, \<lparr>seg_start = 6, seg_end = 20\<rparr>]" "[]"]
  unfolding list_all_iff by simp

section \<open>Results: scratch files\<close>

lemma write_files_snoc:
  "write_files d (w @ [(n, c)]) fs = (write_files d w fs)(d @ ''/'' @ n \<mapsto> File c)"
  by (simp add: write_files_def)

lemma write_files_written:
  "n \<in> set names \<Longrightarrow>
   write_files d (map (\<lambda>name. (name, c)) names) fs (d @ ''/'' @ n) = Some (File c)"
proof (induction names rule: rev_induct)
  case Nil
  then show ?case by simp
next
  case (snoc x xs)
  then show ?case by (auto simp: write_files_snoc)
qed

lemma quick_frames_filename:
  assumes "f \<in> set (quick_frames d l)"
  shows "filename f \<in> set l"
proof -
  let ?names = "sort (filter (\<lambda>file. prefix ''quick_'' file \<and> suffix ''.png'' file) l)"
  from assms obtain a where a: "a < length ?names" "filename f = ?names ! a"
    by (auto simp: quick_frames_def in_set_enumerate_eq)
  have "?names ! a \<in> set ?names"
    by (rule nth_mem) (rule a(1))
  then have "filename f \<in> set ?names" using a(2) by (simp only:)
  then show ?thesis by simp
qed

lemma fold_extract_files:
  assumes "\<forall>f \<in> set (frameData acc). files acc (d @ ''/'' @ filename f) = Some (File ''png'')"
  shows "\<forall>f \<in> set (frameData (fold (extract_step d ok evs) is acc)).
           files (fold (extract_step d ok evs) is acc) (d @ ''/'' @ filename f)
             = Some (File ''png'')"
  using assms
proof (induction "is" arbitrary: acc)
  case Nil
  then show ?case by simp
next
  case (Cons i "is")
  have "\<forall>f \<in> set (frameData (extract_step d ok evs i acc)).
          files (extract_step d ok evs i acc) (d @ ''/'' @ filename f) = Some (File ''png'')"
    using Cons.prems by (auto simp: extract_step_def Let_def smart_frame_def)
  from Cons.IH [OF this] show ?case by simp
qed

lemma extract_frames_files:
  "f \<in> set (frameData (extract_frames d ok evs fs)) \<Longrightarrow>
   files (extract_frames d ok evs fs) (d @ ''/'' @ filename f) = Some (File ''png'')"
  using fold_extract_files [of "\<lparr>frameData = [], files = fs, console = []\<rparr>" d ok evs
      "[0..<min (length evs) 20]"]
  by (simp add: extract_frames_def)

lemma quick_mode_keeps_frames:
  assumes "is_success (fst (quick_mode env d v fs2))" "\<not> prefix (d @ ''/'') v"
    and "f \<in> set (response_frames (fst (quick_mode env d v fs2)))"
  shows "snd (quick_mode env d v fs2) (d @ ''/'' @ filename f) = Some (File ''png'')"
proof -
  let ?fs3 = "write_files d (map (\<lambda>name. (name, ''png'')) (quick_written env)) fs2"
  from assms(1) obtain fs4 where fs4: "unlinkSync ?fs3 v = Some fs4"
    and r: "quick_mode env d v fs2 = (QuickOk (quick_frames d (remdups (quick_written env))), fs4)"
    by (auto simp: quick_mode_def is_success_def Let_def split: option.splits if_splits)
  from assms(3) r have "filename f \<in> set (quick_written env)"
    using quick_frames_filename [of f d "remdups (quick_written env)"]
    by (simp add: response_frames_def)
  then have w: "?fs3 (d @ ''/'' @ filename f) = Some (File ''png'')"
    by (rule write_files_written)
  have "v \<noteq> d @ ''/'' @ filename f"
    using assms(2) by (auto simp: prefix_def)
  then show ?thesis
    using unlinkSync_SomeD [OF fs4] r w by simp
qed

lemma smart_mode_keeps_frames:
  assumes "is_success (fst (smart_mode env d v fs2))" "\<not> prefix (d @ ''/'') v"
    and "f \<in> set (response_frames (fst (smart_mode env d v fs2)))"
  shows "snd (smart_mode env d v fs2) (d @ ''/'' @ filename f) = Some (File ''png'')"
proof -
  let ?fs3 = "write_files d (analysis_written env) fs2"
  let ?ex = "extract_frames d (extract_ok env) (smart_events env d fs2) ?fs3"
  from assms(1) obtain fs5 n m where fs5: "unlinkSync (files ?ex) v = Some fs5"
    and r: "smart_mode env d v fs2 = (SmartOk (frameData ?ex) n m, fs5)"
    by (auto simp: smart_mode_def smart_events_def is_success_def Let_def split: option.splits)
  from assms(3) r have "f \<in> set (frameData ?ex)"
    by (simp add: response_frames_def)
  then have w: "files ?ex (d @ ''/'' @ filename f) = Some (File ''png'')"
    by (rule extract_frames_files)
  have "v \<noteq> d @ ''/'' @ filename f"
    using assms(2) by (auto simp: prefix_def)
  then show ?thesis
    using unlinkSync_SomeD [OF fs5] r w by simp
qed

lemma upload_video_keeps_frames:
  assumes "is_success (fst (upload_video env fs))" "req_file env = Some v"
    and "\<not> prefix (''frames/'' @ toString (date_now env) @ ''/'') v"
    and "f \<in> set (response_frames (fst (upload_video env fs)))"
  shows "snd (upload_video env fs) (''frames/'' @ toString (date_now env) @ ''/'' @ filename f)
           = Some (File ''png'')"
proof -
  define d where "d = ''frames/'' @ toString (date_now env)"
  have p: "\<not> prefix (d @ ''/'') v" using assms(3) by (simp add: d_def)
  from upload_video_cases [of env fs] assms(1,2)
  obtain fs2 where
    u: "quickMode env \<and> upload_video env fs = quick_mode env d v fs2
          \<or> \<not> quickMode env \<and> upload_video env fs = smart_mode env d v fs2"
    unfolding d_def by (auto simp: is_success_def)
  then have "snd (upload_video env fs) (d @ ''/'' @ filename f) = Some (File ''png'')"
    using quick_mode_keeps_frames [of env d v fs2 f] smart_mode_keeps_frames [of env d v fs2 f]
      assms(1,4) p
    by auto
  then show ?thesis by (simp add: d_def)
qed

text \<open>
  C9, as the code has it.  On every successful exit of a run, in quick mode and in smart
  mode, the uploaded video is removed before the response, while the output directory of
  the run is kept and, the upload lying outside that directory, so is the image file of
  every frame of the response.  A run succeeds whenever the upload is a file, the output
  directory can be created and, in quick mode, the extraction command does not throw;
  failures of single frame extractions in smart mode do not prevent it.
\<close>

theorem success_removes_upload:
  "(is_success (fst (upload_video env fs)) \<longrightarrow>
      (\<exists>p. req_file env = Some p \<and> snd (upload_video env fs) p = None
         \<and> snd (upload_video env fs) (''frames/'' @ toString (date_now env)) = Some Dir
         \<and> (\<not> prefix (''frames/'' @ toString (date_now env) @ ''/'') p \<longrightarrow>
              (\<forall>f \<in> set (response_frames (fst (upload_video env fs))).
                 snd (upload_video env fs)
                   (''frames/'' @ toString (date_now env) @ ''/'' @ filename f)
                 = Some (File ''png'')))))
   \<and> (req_file env = Some v \<and> is_file fs v
        \<and> mkdirSync (mkdir_frames fs) ''frames'' (''frames/'' @ toString (date_now env)) \<noteq> None
        \<and> (quickMode env \<longrightarrow> \<not> quick_failed env)
       \<longrightarrow> is_success (fst (upload_video env fs)))"
proof -
  have a: "is_success (fst (upload_video env fs)) \<longrightarrow>
      (\<exists>p. req_file env = Some p \<and> snd (upload_video env fs) p = None
         \<and> snd (upload_video env fs) (''frames/'' @ toString (date_now env)) = Some Dir
         \<and> (\<not> prefix (''frames/'' @ toString (date_now env) @ ''/'') p \<longrightarrow>
              (\<forall>f \<in> set (response_frames (fst (upload_video env fs))).
                 snd (upload_video env fs)
                   (''frames/'' @ toString (date_now env) @ ''/'' @ filename f)
                 = Some (File ''png''))))"
  proof
    assume s: "is_success (fst (upload_video env fs))"
    from upload_video_success [OF s] obtain p where p: "req_file env = Some p"
      "snd (upload_video env fs) p = None"
      "snd (upload_video env fs) (''frames/'' @ toString (date_now env)) = Some Dir"
      by blast
    have "\<not> prefix (''frames/'' @ toString (date_now env) @ ''/'') p \<longrightarrow>
              (\<forall>f \<in> set (response_frames (fst (upload_video env fs))).
                 snd (upload_video env fs)
                   (''frames/'' @ toString (date_now env) @ ''/'' @ filename f)
                 = Some (File ''png''))"
      using upload_video_keeps_frames [OF s p(1)] by blast
    with p show "\<exists>p. req_file env = Some p \<and> snd (upload_video env fs) p = None
         \<and> snd (upload_video env fs) (''frames/'' @ toString (date_now env)) = Some Dir
         \<and> (\<not> prefix (''frames/'' @ toString (date_now env) @ ''/'') p \<longrightarrow>
              (\<forall>f \<in> set (response_frames (fst (upload_video env fs))).
                 snd (upload_video env fs)
                   (''frames/'' @ toString (date_now env) @ ''/'' @ filename f)
                 = Some (File ''png'')))"
      by blast
  qed
  have b: "req_file env = Some v \<and> is_file fs v
        \<and> mkdirSync (mkdir_frames fs) ''frames'' (''frames/'' @ toString (date_now env)) \<noteq> None
        \<and> (quickMode env \<longrightarrow> \<not> quick_failed env)
       \<longrightarrow> is_success (fst (upload_video env fs))"
    using upload_video_is_success [of env v fs] by blast
  show ?thesis by (intro conjI) (rule a, rule b)
qed

text \<open>
  The statement of the specification fails on a successful smart run: the extracted
  images, which the frame route serves afterwards, and the audio analysis file are still
  there after the response.  (On a failed quick run the uploaded video is still there as
  well.)
\<close>

theorem scratch_files_remain:
  "is_success (fst (upload_video sample_env_mixed sample_fs))
   \<and> snd (upload_video sample_env_mixed sample_fs) ''frames/7/speech_000.png''
       = Some (File ''png'')
   \<and> snd (upload_video sample_env_mixed sample_fs) ''frames/7/audio_analysis.txt''
       = Some (File sample_audio)
   \<and> fst (upload_video (sample_quick_env\<lparr>quick_failed := True\<rparr>) sample_fs) = ServerError
   \<and> snd (upload_video (sample_quick_env\<lparr>quick_failed := True\<rparr>) sample_fs) ''uploads/v1''
       = Some (File ''video'')"
  by code_simp

text \<open>
  A smart run in which one of three extractions fails: it succeeds, the upload is gone,
  and the two images of its response are in the output directory.
\<close>

theorem success_removes_upload_witness:
  "is_file sample_fs ''uploads/v1''
   \<and> is_success (fst (upload_video sample_env_partial sample_fs))
   \<and> snd (upload_video sample_env_partial sample_fs) ''uploads/v1'' = None
   \<and> snd (upload_video sample_env_partial sample_fs) ''frames/7'' = Some Dir
   \<and> map filename (response_frames (fst (upload_video sample_env_partial sample_fs)))
       = [''speech_000.png'', ''speech_002.png'']
   \<and> list_all (\<lambda>f. snd (upload_video sample_env_partial sample_fs) (''frames/7/'' @ filename f)
                    = Some (File ''png''))
        (response_frames (fst (upload_video sample_env_partial sample_fs)))"
proof -
  have e: "req_file sample_env_partial = Some ''uploads/v1''" "\<not> quickMode sample_env_partial"
    "date_now sample_env_partial = 7"
    by (simp_all add: sample_env_partial_def sample_env_mixed_def)
  have s: "is_success (fst (upload_video sample_env_partial sample_fs))"
    using success_removes_upload [of sample_env_partial sample_fs "''uploads/v1''"]
      e sample_is_file sample_mkdir by simp
  have n: "map filename (response_frames (fst (upload_video sample_env_partial sample_fs)))
       = [''speech_000.png'', ''speech_002.png'']"
    by code_simp
  show ?thesis
    using success_removes_upload [of sample_env_partial sample_fs "''uploads/v1''"] s e
      sample_is_file n
    by (simp add: toString_7 list_all_iff)
qed

end
